theory Spec2Isabelle
  imports Complex_Main "HOL-Library.Multiset" "HOL-Library.Word"
begin

section \<open>Values, arrays and errors\<close>

text \<open>
  The transforms of \<^verbatim>\<open>albumentations/augmentations/dropout/mask_dropout.py\<close> work on
  numpy arrays. A two-dimensional array is a list of rows. An image is a raster of
  pixels, a pixel being the list of its channel samples (one sample for a 2-D image); a
  mask is a raster of integers. Samples of \<^verbatim>\<open>float\<close> type are idealised as reals
  and integer samples are unbounded: the rounding of floating-point products and the
  wrap-around of a fill value outside the range of an 8-bit array are not modelled.
\<close>

datatype py_error = ValueError | IndexError | Cv2Error

type_synonym 'a raster = "'a list list"

type_synonym image = "real list raster"

text \<open>Python's \<^verbatim>\<open>int(x)\<close> on a float, and numpy's cast of a float into an integer
  array: truncation towards zero.\<close>

definition py_int :: "real \<Rightarrow> int" where
  "py_int x = (if 0 \<le> x then \<lfloor>x\<rfloor> else \<lceil>x\<rceil>)"

text \<open>\<^verbatim>\<open>np.zeros((mask.shape[0], mask.shape[1]), dtype=bool)\<close>\<close>

definition np_zeros_bool :: "'a raster \<Rightarrow> bool raster" where
  "np_zeros_bool msk = map (map (\<lambda>_. False)) msk"

text \<open>\<^verbatim>\<open>label_image == label_index\<close>\<close>

definition raster_eq :: "int raster \<Rightarrow> int \<Rightarrow> bool raster" where
  "raster_eq label_image label_index = map (map (\<lambda>v. v = label_index)) label_image"

text \<open>\<^verbatim>\<open>mask > 0\<close>\<close>

definition raster_gt0 :: "int raster \<Rightarrow> bool raster" where
  "raster_gt0 msk = map (map (\<lambda>v. 0 < v)) msk"

text \<open>\<^verbatim>\<open>dropout_mask |= other\<close>, element by element. Both operands have the mask's
  shape (\<^verbatim>\<open>label\<close> returns an array of the shape of its input), so numpy neither
  broadcasts nor raises here.\<close>

definition raster_or :: "bool raster \<Rightarrow> bool raster \<Rightarrow> bool raster" where
  "raster_or a b = map2 (map2 (\<or>)) a b"

text \<open>\<^verbatim>\<open>dropout_mask.astype(np.uint8)\<close>\<close>

definition astype_uint8 :: "bool raster \<Rightarrow> 8 word raster" where
  "astype_uint8 dm = map (map (\<lambda>b. if b then 1 else 0)) dm"

text \<open>
  \<^verbatim>\<open>img[dropout_mask] = value\<close> on a copy of the array: numpy raises IndexError when
  the boolean index does not have the shape of the array's leading two dimensions;
  otherwise every position where the index is true receives the value (\<open>f\<close> gives the
  new pixel: a scalar is broadcast over the channels of the old one).
\<close>

definition setitem_bool :: "'a raster \<Rightarrow> bool raster \<Rightarrow> ('a \<Rightarrow> 'a) \<Rightarrow> py_error + 'a raster" where
  "setitem_bool img dm f =
     (if map length img \<noteq> map length dm then Inl IndexError
      else Inr (map2 (\<lambda>row drow. map2 (\<lambda>px d. if d then f px else px) row drow) img dm))"

section \<open>The libraries the transforms call\<close>

text \<open>
  \<^verbatim>\<open>skimage.measure.label\<close>, the \<^verbatim>\<open>random\<close> module and \<^verbatim>\<open>cv2.inpaint\<close> are third-party
  code. They are parameters of the model. The state of the global random generator,
  of type \<open>'g\<close>, is passed explicitly: a draw returns the value and the next state.
\<close>

record 'g libs =
  label :: "int raster \<Rightarrow> int raster \<times> int"
  randint :: "'g \<Rightarrow> int \<Rightarrow> int \<Rightarrow> int \<times> 'g"
  sample :: "'g \<Rightarrow> int list \<Rightarrow> nat \<Rightarrow> int list \<times> 'g"
  inpaint :: "image \<Rightarrow> 8 word raster \<Rightarrow> int \<Rightarrow> py_error + image"

text \<open>\<^verbatim>\<open>random.randint(a, b)\<close> raises ValueError on an empty range.\<close>

definition random_randint :: "'g libs \<Rightarrow> 'g \<Rightarrow> int \<Rightarrow> int \<Rightarrow> py_error + int \<times> 'g" where
  "random_randint L g a b = (if b < a then Inl ValueError else Inr (randint L g a b))"

text \<open>\<^verbatim>\<open>random.sample(population, k)\<close> raises ValueError when \<open>k\<close> is negative or larger
  than the population.\<close>

definition random_sample :: "'g libs \<Rightarrow> 'g \<Rightarrow> int list \<Rightarrow> int \<Rightarrow> py_error + int list \<times> 'g" where
  "random_sample L g population k =
     (if k < 0 \<or> int (length population) < k then Inl ValueError
      else Inr (sample L g population (nat k)))"

text \<open>
  \<^verbatim>\<open>cv2.boundingRect\<close> of a single-channel 8-bit array: the up-right rectangle
  \<open>(x, y, w, h)\<close> around its non-zero pixels, \<open>(0, 0, 0, 0)\<close> when there is none.
\<close>

definition nonzero_cols :: "8 word raster \<Rightarrow> nat list" where
  "nonzero_cols m =
     filter (\<lambda>j. list_ex (\<lambda>row. j < length row \<and> row ! j \<noteq> 0) m) [0..<foldr max (map length m) 0]"

definition nonzero_rows :: "8 word raster \<Rightarrow> nat list" where
  "nonzero_rows m = filter (\<lambda>i. list_ex (\<lambda>v. v \<noteq> 0) (m ! i)) [0..<length m]"

definition boundingRect :: "8 word raster \<Rightarrow> int \<times> int \<times> int \<times> int" where
  "boundingRect m =
     (case (nonzero_cols m, nonzero_rows m) of
        (x # xs, y # ys) \<Rightarrow>
          (int x, int y, int (last (x # xs) - x + 1), int (last (y # ys) - y + 1))
      | _ \<Rightarrow> (0, 0, 0, 0))"

section \<open>Configuration\<close>

text \<open>The fields the base class keeps, then those of \<^verbatim>\<open>MaskDropout\<close>. The bounds are a
  pair of integers for \<^verbatim>\<open>MaskDropout\<close> and a pair of floats for \<^verbatim>\<open>MaskDropoutV2\<close>.\<close>

datatype fill_value = Num real | Inpaint

record transform =
  self_always_apply :: bool
  self_p :: real

record 'b mask_dropout = transform +
  self_max_objects :: "'b \<times> 'b"
  self_image_fill_value :: fill_value
  self_mask_fill_value :: real

text \<open>
  Modelled from the spec: the constructor of the base class \<^verbatim>\<open>DualTransform\<close>
  (\<^verbatim>\<open>core/transforms_interface.py\<close>) is not among the sources. The spec lists the
  activation probability and the always-apply flag as configuration owned by the
  surrounding framework: the constructor stores the two values it is given.
\<close>

definition DualTransform_init :: "bool \<Rightarrow> real \<Rightarrow> transform" where
  "DualTransform_init always_apply p = \<lparr>self_always_apply = always_apply, self_p = p\<rparr>"

text \<open>
  Modelled from the spec: \<^verbatim>\<open>to_tuple\<close> (\<^verbatim>\<open>core/transforms_interface.py\<close>) is not among
  the sources. The spec gives \<^verbatim>\<open>max_objects\<close> as an integer or a \<open>(min, max)\<close> pair of
  counts: a pair is kept as it is, an integer is paired with the lower bound \<open>low\<close>,
  smaller value first.
\<close>

datatype max_objects_arg = Scalar int | Pair int int

definition to_tuple :: "max_objects_arg \<Rightarrow> int \<Rightarrow> int \<times> int" where
  "to_tuple param low =
     (case param of
        Scalar m \<Rightarrow> (if low < m then (low, m) else (m, low))
      | Pair a b \<Rightarrow> (a, b))"

text \<open>\<^verbatim>\<open>MaskDropout.__init__\<close>: no statement of the constructor raises.\<close>

definition MaskDropout_init ::
  "max_objects_arg \<Rightarrow> fill_value \<Rightarrow> real \<Rightarrow> bool \<Rightarrow> real \<Rightarrow> py_error + int mask_dropout" where
  "MaskDropout_init max_objects image_fill_value mask_fill_value always_apply p =
     (let base = DualTransform_init always_apply p in
      Inr \<lparr>self_always_apply = self_always_apply base, self_p = self_p base,
           self_max_objects = to_tuple max_objects 1,
           self_image_fill_value = image_fill_value,
           self_mask_fill_value = mask_fill_value\<rparr>)"

text \<open>
  \<^verbatim>\<open>MaskDropoutV2.__init__\<close> calls \<^verbatim>\<open>super().__init__(always_apply, p)\<close>: the two
  arguments land in the parent's first two parameters, \<^verbatim>\<open>max_objects\<close> and
  \<^verbatim>\<open>image_fill_value\<close> (a Python bool is the integer 0 or 1), and the parent's other
  parameters take their defaults \<^verbatim>\<open>0, False, 0.5\<close>. The three fields are then
  overwritten.
\<close>

definition MaskDropoutV2_init ::
  "real \<times> real \<Rightarrow> fill_value \<Rightarrow> real \<Rightarrow> bool \<Rightarrow> real \<Rightarrow> py_error + real mask_dropout" where
  "MaskDropoutV2_init max_objects image_fill_value mask_fill_value always_apply p =
     (case MaskDropout_init (Scalar (if always_apply then 1 else 0)) (Num p) 0 False 0.5 of
        Inl e \<Rightarrow> Inl e
      | Inr self \<Rightarrow>
          Inr \<lparr>self_always_apply = self_always_apply self, self_p = self_p self,
               self_max_objects = max_objects,
               self_image_fill_value = image_fill_value,
               self_mask_fill_value = mask_fill_value\<rparr>)"

section \<open>Choosing the objects to drop\<close>

text \<open>
  What \<^verbatim>\<open>get_params_dependent_on_targets\<close> leaves behind: the entry \<^verbatim>\<open>dropout_mask\<close> it
  adds to \<^verbatim>\<open>params\<close> (\<open>None\<close> as in the source), its locals \<^verbatim>\<open>objects_to_drop\<close> and
  \<^verbatim>\<open>labels_index\<close> where they were assigned, and the state of the random generator.
\<close>

record 'g params =
  params_dropout_mask :: "bool raster option"
  local_objects_to_drop :: "int option"
  local_labels_index :: "int list option"
  random_state :: 'g

text \<open>The loop \<^verbatim>\<open>for label_index in labels_index: dropout_mask |= label_image == label_index\<close>
  from the all-false raster.\<close>

definition build_dropout_mask :: "int raster \<Rightarrow> int raster \<Rightarrow> int list \<Rightarrow> bool raster" where
  "build_dropout_mask msk label_image labels_index =
     foldl (\<lambda>dropout_mask label_index. raster_or dropout_mask (raster_eq label_image label_index))
       (np_zeros_bool msk) labels_index"

definition MaskDropout_get_params_dependent_on_targets ::
  "'g libs \<Rightarrow> int mask_dropout \<Rightarrow> 'g \<Rightarrow> int raster \<Rightarrow> py_error + 'g params" where
  "MaskDropout_get_params_dependent_on_targets L self g msk =
     (let (label_image, num_labels) = label L msk in
      if num_labels = 0 then
        Inr \<lparr>params_dropout_mask = None, local_objects_to_drop = None,
             local_labels_index = None, random_state = g\<rparr>
      else
        (case random_randint L g (fst (self_max_objects self)) (snd (self_max_objects self)) of
           Inl e \<Rightarrow> Inl e
         | Inr (drawn, g1) \<Rightarrow>
             (let objects_to_drop = min num_labels drawn in
              if objects_to_drop = num_labels then
                Inr \<lparr>params_dropout_mask = Some (raster_gt0 msk),
                     local_objects_to_drop = Some objects_to_drop,
                     local_labels_index = None, random_state = g1\<rparr>
              else
                (case random_sample L g1 [1..num_labels] objects_to_drop of
                   Inl e \<Rightarrow> Inl e
                 | Inr (labels_index, g2) \<Rightarrow>
                     Inr \<lparr>params_dropout_mask =
                            Some (build_dropout_mask msk label_image labels_index),
                          local_objects_to_drop = Some objects_to_drop,
                          local_labels_index = Some labels_index, random_state = g2\<rparr>))))"

definition MaskDropoutV2_get_params_dependent_on_targets ::
  "'g libs \<Rightarrow> real mask_dropout \<Rightarrow> 'g \<Rightarrow> int raster \<Rightarrow> py_error + 'g params" where
  "MaskDropoutV2_get_params_dependent_on_targets L self g msk =
     (let (label_image, num_labels) = label L msk in
      if num_labels = 0 then
        Inr \<lparr>params_dropout_mask = None, local_objects_to_drop = None,
             local_labels_index = None, random_state = g\<rparr>
      else
        (case random_randint L g
                (py_int (of_int num_labels * fst (self_max_objects self)))
                (py_int (of_int num_labels * snd (self_max_objects self))) of
           Inl e \<Rightarrow> Inl e
         | Inr (objects_to_drop, g1) \<Rightarrow>
             (case random_sample L g1 [1..num_labels] objects_to_drop of
                Inl e \<Rightarrow> Inl e
              | Inr (labels_index, g2) \<Rightarrow>
                  Inr \<lparr>params_dropout_mask =
                         Some (build_dropout_mask msk label_image labels_index),
                       local_objects_to_drop = Some objects_to_drop,
                       local_labels_index = Some labels_index, random_state = g2\<rparr>)))"

text \<open>What a run selects: the error it raises, or the dropout mask, the count and the ids
  it leaves, without the state of the generator.\<close>

definition selected ::
  "py_error + 'g params \<Rightarrow> py_error + bool raster option \<times> int option \<times> int list option" where
  "selected outcome =
     (case outcome of
        Inl e \<Rightarrow> Inl e
      | Inr r \<Rightarrow> Inr (params_dropout_mask r, local_objects_to_drop r, local_labels_index r))"

section \<open>Filling the image and the mask\<close>

definition MaskDropout_apply ::
  "'g libs \<Rightarrow> int mask_dropout \<Rightarrow> image \<Rightarrow> bool raster option \<Rightarrow> py_error + image" where
  "MaskDropout_apply L self img dropout_mask =
     (case dropout_mask of
        None \<Rightarrow> Inr img
      | Some dm \<Rightarrow>
          (case self_image_fill_value self of
             Inpaint \<Rightarrow>
               (let dm8 = astype_uint8 dm;
                    (x, y, w, h) = boundingRect dm8;
                    radius = min 3 (max w h div 2)
                in inpaint L img dm8 radius)
           | Num v \<Rightarrow> setitem_bool img dm (\<lambda>px. map (\<lambda>_. v) px)))"

definition MaskDropout_apply_to_mask ::
  "int mask_dropout \<Rightarrow> int raster \<Rightarrow> bool raster option \<Rightarrow> py_error + int raster" where
  "MaskDropout_apply_to_mask self img dropout_mask =
     (case dropout_mask of
        None \<Rightarrow> Inr img
      | Some dm \<Rightarrow> setitem_bool img dm (\<lambda>_. py_int (self_mask_fill_value self)))"

text \<open>\<^verbatim>\<open>MaskDropoutV2\<close> overrides both methods with the same bodies.\<close>

definition MaskDropoutV2_apply ::
  "'g libs \<Rightarrow> real mask_dropout \<Rightarrow> image \<Rightarrow> bool raster option \<Rightarrow> py_error + image" where
  "MaskDropoutV2_apply L self img dropout_mask =
     (case dropout_mask of
        None \<Rightarrow> Inr img
      | Some dm \<Rightarrow>
          (case self_image_fill_value self of
             Inpaint \<Rightarrow>
               (let dm8 = astype_uint8 dm;
                    (x, y, w, h) = boundingRect dm8;
                    radius = min 3 (max w h div 2)
                in inpaint L img dm8 radius)
           | Num v \<Rightarrow> setitem_bool img dm (\<lambda>px. map (\<lambda>_. v) px)))"

definition MaskDropoutV2_apply_to_mask ::
  "real mask_dropout \<Rightarrow> int raster \<Rightarrow> bool raster option \<Rightarrow> py_error + int raster" where
  "MaskDropoutV2_apply_to_mask self img dropout_mask =
     (case dropout_mask of
        None \<Rightarrow> Inr img
      | Some dm \<Rightarrow> setitem_bool img dm (\<lambda>_. py_int (self_mask_fill_value self)))"

section \<open>What the libraries promise\<close>

text \<open>
  \<^verbatim>\<open>label\<close> returns an array of the mask's shape that is 0 exactly on the background
  (the pixels of value 0) and carries an id between 1 and \<open>num_labels\<close> elsewhere.
\<close>

definition label_ok :: "'g libs \<Rightarrow> int raster \<Rightarrow> bool" where
  "label_ok L msk =
     (case label L msk of
        (label_image, num_labels) \<Rightarrow>
          map (map (\<lambda>v. v = 0)) label_image = map (map (\<lambda>v. v = 0)) msk \<and>
          list_all (list_all (\<lambda>v. 0 \<le> v \<and> v \<le> num_labels)) label_image)"

text \<open>
  \<^verbatim>\<open>randint(a, b)\<close> returns a value of the non-empty range \<open>[a, b]\<close>;
  \<^verbatim>\<open>sample(population, k)\<close> returns \<open>k\<close> elements taken from distinct positions of the
  population.
\<close>

definition random_ok :: "'g libs \<Rightarrow> bool" where
  "random_ok L =
     ((\<forall>g a b. a \<le> b \<longrightarrow> a \<le> fst (randint L g a b) \<and> fst (randint L g a b) \<le> b) \<and>
      (\<forall>g xs k. k \<le> length xs \<longrightarrow>
         length (fst (sample L g xs k)) = k \<and> mset (fst (sample L g xs k)) \<subseteq># mset xs))"

text \<open>
  Two generators, each in its own state, answer alike: a first \<^verbatim>\<open>randint\<close> returns the
  same value from both whatever range is asked, and a \<^verbatim>\<open>sample\<close> from the population
  that follows it returns the same ids from both whatever size is asked. A generator
  seeded twice with one seed is twice in one state, and answers alike.
\<close>

definition same_draws :: "'g libs \<Rightarrow> 'g \<Rightarrow> 'h libs \<Rightarrow> 'h \<Rightarrow> int list \<Rightarrow> bool" where
  "same_draws L1 g1 L2 g2 population =
     (\<forall>a b. fst (randint L1 g1 a b) = fst (randint L2 g2 a b) \<and>
        (\<forall>k\<le>length population.
           fst (sample L1 (snd (randint L1 g1 a b)) population k) =
           fst (sample L2 (snd (randint L2 g2 a b)) population k)))"

text \<open>The mask's pixels are non-negative integers, 0 for the background.\<close>

definition mask_ok :: "int raster \<Rightarrow> bool" where
  "mask_ok msk = list_all (list_all (\<lambda>v. 0 \<le> v)) msk"

section \<open>Library instances for concrete runs\<close>

text \<open>
  A generator that replays a tape of raw numbers: each draw consumes one number and
  maps it into the range asked for. Every outcome the \<^verbatim>\<open>random\<close> module can produce is
  the outcome of some tape.
\<close>

fun tape_next :: "nat list \<Rightarrow> nat \<times> nat list" where
  "tape_next [] = (0, [])"
| "tape_next (x # g) = (x, g)"

definition tape_randint :: "nat list \<Rightarrow> int \<Rightarrow> int \<Rightarrow> int \<times> nat list" where
  "tape_randint g a b = (case tape_next g of (x, g') \<Rightarrow> (a + int (x mod nat (b - a + 1)), g'))"

fun tape_sample :: "nat list \<Rightarrow> int list \<Rightarrow> nat \<Rightarrow> int list \<times> nat list" where
  "tape_sample g population 0 = ([], g)"
| "tape_sample g population (Suc k) =
     (case tape_next g of
        (x, g') \<Rightarrow>
          (let i = x mod length population;
               (rest, g'') = tape_sample g' (take i population @ drop (Suc i) population) k
           in (population ! i # rest, g'')))"

text \<open>The labelling of a mask whose objects already carry the ids \<open>1..N\<close>, one connected
  object per id: the mask itself, with its largest id as the count.\<close>

definition instance_label :: "int raster \<Rightarrow> int raster \<times> int" where
  "instance_label msk = (msk, foldr max (concat msk) 0)"

text \<open>An inpainting routine with the documented domain of \<^verbatim>\<open>cv2.inpaint\<close>: it accepts
  images of 1 or 3 channels and raises an OpenCV error on any other. In place of the
  reconstruction it paints the radius it is given into the masked pixels.\<close>

definition probe_inpaint :: "image \<Rightarrow> 8 word raster \<Rightarrow> int \<Rightarrow> py_error + image" where
  "probe_inpaint img m radius =
     (if list_all (list_all (\<lambda>px. length px = 1 \<or> length px = 3)) img then
        Inr (map2 (map2 (\<lambda>px v. if v = 0 then px else map (\<lambda>_. of_int radius) px)) img m)
      else Inl Cv2Error)"

definition tape_libs :: "nat list libs" where
  "tape_libs = \<lparr>label = instance_label, randint = tape_randint, sample = tape_sample,
                inpaint = probe_inpaint\<rparr>"

section \<open>Concrete inputs\<close>

text \<open>A mask with two objects, and an image of its shape with one channel.\<close>

definition two_objects_mask :: "int raster" where
  "two_objects_mask = [[1, 0], [0, 2]]"


text \<open>\<^verbatim>\<open>MaskDropout(max_objects=1)\<close>, \<^verbatim>\<open>MaskDropout(max_objects=(2, 3))\<close> and
  \<^verbatim>\<open>MaskDropoutV2(max_objects=(0, 0.5))\<close>, as their constructors build them
  (\<open>concrete_transforms_built\<close> below).\<close>

definition drop_one :: "int mask_dropout" where
  "drop_one = \<lparr>self_always_apply = False, self_p = 1/2, self_max_objects = (1, 1),
               self_image_fill_value = Num 0, self_mask_fill_value = 0\<rparr>"

definition drop_two_or_three :: "int mask_dropout" where
  "drop_two_or_three = \<lparr>self_always_apply = False, self_p = 1/2, self_max_objects = (2, 3),
               self_image_fill_value = Num 0, self_mask_fill_value = 0\<rparr>"

definition drop_up_to_half :: "real mask_dropout" where
  "drop_up_to_half = \<lparr>self_always_apply = False, self_p = 1/2, self_max_objects = (0, 1/2),
               self_image_fill_value = Num 0, self_mask_fill_value = 0\<rparr>"

text \<open>Scenario B of the specification: a 3-channel image and a dropout mask whose true
  region is 10 pixels wide and 2 pixels high, with the fill \<^verbatim>\<open>"inpaint"\<close>.\<close>

definition scenario_B_image :: image where
  "scenario_B_image = replicate 4 (replicate 12 [100, 150, 200])"

definition scenario_B_dropout_mask :: "bool raster" where
  "scenario_B_dropout_mask =
     [replicate 12 False,
      False # replicate 10 True @ [False],
      False # replicate 10 True @ [False],
      replicate 12 False]"

text \<open>\<^verbatim>\<open>MaskDropout(max_objects=1, image_fill_value="inpaint")\<close>\<close>

definition inpaint_all :: "int mask_dropout" where
  "inpaint_all = \<lparr>self_always_apply = False, self_p = 1/2, self_max_objects = (1, 1),
               self_image_fill_value = Inpaint, self_mask_fill_value = 0\<rparr>"

section \<open>Lemmas on rasters\<close>

lemma raster_or_maps:
  "raster_or (map (map P) xs) (map (map Q) xs) = map (map (\<lambda>v. P v \<or> Q v)) xs"
  by (simp add: raster_or_def zip_map_map zip_same_conv_map)

lemma np_zeros_bool_dims:
  "map length a = map length b \<Longrightarrow> np_zeros_bool a = map (map (\<lambda>v. False)) b"
proof (induction a arbitrary: b)
  case Nil
  then show ?case by (simp add: np_zeros_bool_def)
next
  case (Cons r a)
  then obtain r' b' where b: "b = r' # b'" by (cases b) auto
  with Cons.prems have len: "length r = length r'" and rest: "map length a = map length b'" by auto
  have "map (\<lambda>_. False) r = map (\<lambda>_. False) r'"
    using len by (simp add: map_replicate_const)
  with Cons.IH[OF rest] b show ?case by (simp add: np_zeros_bool_def)
qed

lemma foldl_or_eq:
  "foldl (\<lambda>dm idx. raster_or dm (raster_eq L idx)) (map (map (\<lambda>v. v \<in> S)) L) ids
     = map (map (\<lambda>v. v \<in> S \<union> set ids)) L"
proof (induction ids arbitrary: S)
  case Nil
  then show ?case by simp
next
  case (Cons i ids)
  have "raster_or (map (map (\<lambda>v. v \<in> S)) L) (raster_eq L i) = map (map (\<lambda>v. v \<in> insert i S)) L"
    by (simp add: raster_eq_def raster_or_maps disj_commute)
  then show ?case using Cons.IH[of "insert i S"] by simp
qed

lemma build_dropout_mask_eq:
  assumes "map length label_image = map length msk"
  shows "build_dropout_mask msk label_image ids = map (map (\<lambda>v. v \<in> set ids)) label_image"
proof -
  have "np_zeros_bool msk = map (map (\<lambda>v. v \<in> {})) label_image"
    using np_zeros_bool_dims[OF assms[symmetric]] by simp
  then show ?thesis
    unfolding build_dropout_mask_def using foldl_or_eq[of label_image "{}" ids] by simp
qed

lemma setitem_bool_nth:
  assumes "map length img = map length dm"
  shows "\<exists>out. setitem_bool img dm f = Inr out \<and> map length out = map length img \<and>
     (\<forall>i < length dm. \<forall>j < length (dm ! i).
        out ! i ! j = (if dm ! i ! j then f (img ! i ! j) else img ! i ! j))"
proof -
  let ?out = "map2 (\<lambda>row drow. map2 (\<lambda>px d. if d then f px else px) row drow) img dm"
  have len: "length img = length dm" using assms by (metis length_map)
  have rows: "\<And>i. i < length dm \<Longrightarrow> length (img ! i) = length (dm ! i)"
    using assms len by (metis nth_map)
  have "map length ?out = map length img"
    using len rows by (auto simp: list_eq_iff_nth_eq)
  moreover have "\<forall>i < length dm. \<forall>j < length (dm ! i).
        ?out ! i ! j = (if dm ! i ! j then f (img ! i ! j) else img ! i ! j)"
    using len rows by auto
  ultimately show ?thesis using assms by (simp add: setitem_bool_def)
qed

lemma dims_of_map_eq: "map (map f) a = map (map g) b \<Longrightarrow> map length a = map length b"
proof -
  assume "map (map f) a = map (map g) b"
  then have "map length (map (map f) a) = map length (map (map g) b)" by simp
  then show ?thesis by (simp add: comp_def)
qed

lemma label_ok_dims:
  "label_ok L msk \<Longrightarrow> label L msk = (label_image, num_labels) \<Longrightarrow>
     map length label_image = map length msk"
  by (auto simp: label_ok_def dest: dims_of_map_eq)

lemma raster_gt0_nonzero: "mask_ok msk \<Longrightarrow> raster_gt0 msk = map (map (\<lambda>v. v \<noteq> 0)) msk"
  by (fastforce simp: mask_ok_def raster_gt0_def list_all_iff)

lemma foreground_is_all_labels:
  assumes "label_ok L msk" and "mask_ok msk" and "label L msk = (label_image, N)"
  shows "raster_gt0 msk = build_dropout_mask msk label_image [1..N]"
proof -
  have zero: "map (map (\<lambda>v. v = 0)) label_image = map (map (\<lambda>v. v = 0)) msk"
    and range: "list_all (list_all (\<lambda>v. 0 \<le> v \<and> v \<le> N)) label_image"
    using assms(1,3) by (simp_all add: label_ok_def)
  have "map (map (\<lambda>v. v \<in> set [1..N])) label_image = map (map (\<lambda>v. v \<noteq> 0)) label_image"
    using range by (fastforce simp: list_all_iff)
  also have "\<dots> = map (map Not) (map (map (\<lambda>v. v = 0)) label_image)"
    by (simp add: comp_def)
  also have "\<dots> = map (map Not) (map (map (\<lambda>v. v = 0)) msk)"
    by (simp only: zero)
  also have "\<dots> = map (map (\<lambda>v. v \<noteq> 0)) msk"
    by (simp add: comp_def)
  finally have "map (map (\<lambda>v. v \<in> set [1..N])) label_image = raster_gt0 msk"
    using assms(2) by (simp add: raster_gt0_nonzero)
  then show ?thesis
    using build_dropout_mask_eq[OF label_ok_dims[OF assms(1,3)], of "[1..N]"] by simp
qed


lemma build_dropout_mask_dims:
  "map length label_image = map length msk \<Longrightarrow>
     map length (build_dropout_mask msk label_image ids) = map length msk"
  by (simp add: build_dropout_mask_eq comp_def)

lemma fills_coincide:
  assumes "map length img = map length dm" and "map length msk = map length dm"
  shows "\<exists>img' msk'. setitem_bool img dm f = Inr img' \<and> setitem_bool msk dm k = Inr msk' \<and>
           map length img' = map length img \<and> map length msk' = map length msk \<and>
           (\<forall>i<length dm. \<forall>j<length (dm ! i).
              (dm ! i ! j \<longrightarrow> img' ! i ! j = f (img ! i ! j) \<and> msk' ! i ! j = k (msk ! i ! j)) \<and>
              (\<not> dm ! i ! j \<longrightarrow> img' ! i ! j = img ! i ! j \<and> msk' ! i ! j = msk ! i ! j))"
proof -
  from setitem_bool_nth[OF assms(1), of f] obtain img' where
    a: "setitem_bool img dm f = Inr img'" "map length img' = map length img"
       "\<forall>i<length dm. \<forall>j<length (dm ! i). img' ! i ! j = (if dm ! i ! j then f (img ! i ! j) else img ! i ! j)"
    by blast
  from setitem_bool_nth[OF assms(2), of k] obtain msk' where
    b: "setitem_bool msk dm k = Inr msk'" "map length msk' = map length msk"
       "\<forall>i<length dm. \<forall>j<length (dm ! i). msk' ! i ! j = (if dm ! i ! j then k (msk ! i ! j) else msk ! i ! j)"
    by blast
  from a b show ?thesis by simp
qed


section \<open>The replay generator keeps the promises of the random module\<close>

lemma tape_randint_range: "a \<le> b \<Longrightarrow> a \<le> fst (tape_randint g a b) \<and> fst (tape_randint g a b) \<le> b"
proof -
  assume ab: "a \<le> b"
  obtain x g' where n: "tape_next g = (x, g')" by (cases "tape_next g")
  have pos: "0 < nat (b - a + 1)" using ab by simp
  have "x mod nat (b - a + 1) < nat (b - a + 1)" using pos by simp
  then have "int (x mod nat (b - a + 1)) \<le> b - a" using ab by linarith
  then show ?thesis using n by (simp add: tape_randint_def)
qed

lemma tape_sample_ok:
  "k \<le> length xs \<Longrightarrow>
     length (fst (tape_sample g xs k)) = k \<and> mset (fst (tape_sample g xs k)) \<subseteq># mset xs"
proof (induction k arbitrary: g xs)
  case 0
  then show ?case by simp
next
  case (Suc k)
  obtain x g' where n: "tape_next g = (x, g')" by (cases "tape_next g")
  define i where "i = x mod length xs"
  define ys where "ys = take i xs @ drop (Suc i) xs"
  have pos: "0 < length xs" using Suc.prems by auto
  then have i: "i < length xs" by (simp add: i_def)
  have len: "k \<le> length ys" using Suc.prems i by (simp add: ys_def)
  have split: "xs = take i xs @ xs ! i # drop (Suc i) xs" using i by (simp add: id_take_nth_drop)
  have ms: "mset xs = add_mset (xs ! i) (mset ys)"
    by (subst split) (simp add: ys_def)
  obtain rest g'' where r: "tape_sample g' ys k = (rest, g'')" by (cases "tape_sample g' ys k")
  have ih: "length rest = k \<and> mset rest \<subseteq># mset ys" using Suc.IH[OF len, of g'] r by simp
  have res: "fst (tape_sample g xs (Suc k)) = xs ! i # rest"
    using n r by (simp add: i_def ys_def Let_def)
  show ?case using ih ms res by simp
qed

lemma tape_libs_random_ok: "random_ok tape_libs"
  using tape_randint_range tape_sample_ok by (simp add: random_ok_def tape_libs_def)

section \<open>Draws that keep the promises\<close>

lemma distinct_of_submset:
  assumes "mset ys \<subseteq># mset xs" and "distinct xs"
  shows "distinct ys"
proof -
  have le: "count (mset ys) a \<le> 1" for a
  proof -
    have "count (mset ys) a \<le> count (mset xs) a"
      using assms(1) by (rule mset_subset_eq_count)
    also have "\<dots> \<le> 1" using assms(2) by (simp add: distinct_count_atmost_1)
    finally show ?thesis .
  qed
  have "count (mset ys) a = (if a \<in> set ys then 1 else 0)" for a
  proof (cases "a \<in> set ys")
    case True
    then have "0 < count (mset ys) a" by (simp add: count_greater_zero_iff)
    with le[of a] show ?thesis using True by (simp del: count_greater_zero_iff count_mset_gt_0)
  next
    case False
    then show ?thesis by simp
  qed
  then show ?thesis by (simp add: distinct_count_atmost_1)
qed

lemma random_sample_ids:
  assumes "random_ok L" and "0 \<le> k" and "k \<le> N"
  shows "\<exists>ids g'. random_sample L g [1..N] k = Inr (ids, g') \<and>
           int (length ids) = k \<and> distinct ids \<and> set ids \<subseteq> {1..N}"
proof -
  obtain ids g' where s: "sample L g [1..N] (nat k) = (ids, g')"
    by (cases "sample L g [1..N] (nat k)")
  have le: "nat k \<le> length [1..N]" using assms(2,3) by simp
  from assms(1) le have "length (fst (sample L g [1..N] (nat k))) = nat k \<and>
      mset (fst (sample L g [1..N] (nat k))) \<subseteq># mset [1..N]"
    unfolding random_ok_def by blast
  then have len: "length ids = nat k" and sub: "mset ids \<subseteq># mset [1..N]"
    using s by simp_all
  have d: "distinct ids" using sub by (rule distinct_of_submset) simp
  have "set_mset (mset ids) \<subseteq> set_mset (mset [1..N])" using sub by (rule set_mset_mono)
  then have "set ids \<subseteq> set [1..N]" by (simp only: set_mset_mset)
  then have sset: "set ids \<subseteq> {1..N}" by simp
  have "random_sample L g [1..N] k = Inr (ids, g')"
    using assms(2,3) s by (simp add: random_sample_def)
  then show ?thesis using len d sset assms(2) by auto
qed

lemma random_sample_Inr:
  assumes "random_ok L" and "random_sample L g [1..N] k = Inr (ids, g')"
  shows "int (length ids) = k \<and> distinct ids \<and> set ids \<subseteq> {1..N}"
proof -
  have k: "0 \<le> k" "k \<le> max 0 N"
    using assms(2) by (auto simp: random_sample_def split: if_splits)
  show ?thesis
  proof (cases "0 \<le> N")
    case True
    with k have "k \<le> N" by simp
    from random_sample_ids[OF assms(1) k(1) this, of g] assms(2) show ?thesis by auto
  next
    case False
    with k have k0: "k = 0" by simp
    from random_sample_ids[OF assms(1), of 0 0 g] obtain ids0 g0 where
      "random_sample L g [1..0] 0 = Inr (ids0, g0)" "ids0 = []" by auto
    moreover have "[1..N] = [1..0]" using False by simp
    ultimately show ?thesis using assms(2) k0 by auto
  qed
qed

lemma random_randint_range:
  assumes "random_ok L" and "a \<le> b"
  shows "\<exists>k g'. random_randint L g a b = Inr (k, g') \<and> randint L g a b = (k, g') \<and> a \<le> k \<and> k \<le> b"
proof -
  obtain k g' where r: "randint L g a b = (k, g')" by (cases "randint L g a b")
  from assms have "a \<le> fst (randint L g a b) \<and> fst (randint L g a b) \<le> b"
    unfolding random_ok_def by blast
  then show ?thesis using r assms(2) by (simp add: random_randint_def)
qed

section \<open>The bounding rectangle\<close>

lemma sorted_le_last:
  assumes "sorted ys" and "k \<in> set ys"
  shows "k \<le> last (ys :: nat list)"
proof -
  from assms(2) obtain i where i: "i < length ys" "ys ! i = k" by (auto simp: in_set_conv_nth)
  then have ne: "ys \<noteq> []" by auto
  have "ys ! i \<le> ys ! (length ys - 1)"
    using assms(1) i(1) by (intro sorted_nth_mono) auto
  then show ?thesis using i(2) ne by (simp add: last_conv_nth)
qed

lemma filter_upt_bounds:
  assumes "filter P [0..<n] = x # xs"
  shows "P x \<and> P (last (x # xs)) \<and> x \<le> last (x # xs) \<and> last (x # xs) < n \<and>
         (\<forall>k<n. P k \<longrightarrow> x \<le> k \<and> k \<le> last (x # xs))"
proof -
  define ys where "ys = x # xs"
  have ys: "ys = filter P [0..<n]" using assms by (simp add: ys_def)
  have set_eq: "set ys = {k. k < n \<and> P k}" unfolding ys by auto
  have srt: "sorted ys" unfolding ys by (rule sorted_wrt_filter) (rule sorted_upt)
  have x_in: "x \<in> set ys" by (simp add: ys_def)
  have l_in: "last ys \<in> set ys" by (rule last_in_set) (simp add: ys_def)
  have lo: "\<forall>k \<in> set ys. x \<le> k" using srt by (auto simp: ys_def)
  have hi: "\<forall>k \<in> set ys. k \<le> last ys" using srt sorted_le_last by blast
  have "P x \<and> P (last ys) \<and> x \<le> last ys \<and> last ys < n \<and>
         (\<forall>k<n. P k \<longrightarrow> x \<le> k \<and> k \<le> last ys)"
    using set_eq x_in l_in lo hi by blast
  then show ?thesis unfolding ys_def .
qed

lemma astype_uint8_nth:
  "i < length dm \<Longrightarrow> j < length (dm ! i) \<Longrightarrow> (astype_uint8 dm ! i ! j \<noteq> 0) = dm ! i ! j"
  by (simp add: astype_uint8_def)

lemma foldr_max_ge: "r \<in> set rs \<Longrightarrow> r \<le> foldr max rs (0::nat)"
  by (induction rs) auto

lemma boundingRect_encloses:
  assumes br: "boundingRect (astype_uint8 dm) = (x, y, w, h)"
    and i: "i < length dm" and j: "j < length (dm ! i)" and t: "dm ! i ! j"
  shows "x \<le> int j \<and> int j < x + w \<and> y \<le> int i \<and> int i < y + h"
proof -
  let ?u = "astype_uint8 dm"
  let ?n = "foldr max (map length ?u) 0"
  let ?P = "\<lambda>j. list_ex (\<lambda>row. j < length row \<and> row ! j \<noteq> 0) ?u"
  let ?Q = "\<lambda>i. list_ex (\<lambda>v. v \<noteq> 0) (?u ! i)"
  have lu: "length ?u = length dm" and lrow: "length (?u ! i) = length (dm ! i)"
    using i by (simp_all add: astype_uint8_def)
  have nz: "?u ! i ! j \<noteq> 0" using astype_uint8_nth[OF i j] t by simp
  have row_in: "?u ! i \<in> set ?u" using i lu by simp
  have "\<exists>row\<in>set ?u. j < length row \<and> row ! j \<noteq> 0"
    using row_in nz j lrow by (intro bexI[of _ "?u ! i"]) auto
  then have Pj: "?P j" by (simp add: list_ex_iff)
  have "?u ! i ! j \<in> set (?u ! i)" using j lrow by simp
  then have Qi: "?Q i" using nz by (auto simp: list_ex_iff)
  have "length (?u ! i) \<le> ?n" using row_in by (intro foldr_max_ge) simp
  then have jn: "j < ?n" using j lrow by simp
  have cj: "j \<in> set (nonzero_cols ?u)" using Pj jn by (simp add: nonzero_cols_def)
  have ri: "i \<in> set (nonzero_rows ?u)" using Qi i lu by (simp add: nonzero_rows_def)
  obtain c cs where c: "nonzero_cols ?u = c # cs" using cj by (cases "nonzero_cols ?u") auto
  obtain r rs where r: "nonzero_rows ?u = r # rs" using ri by (cases "nonzero_rows ?u") auto
  have bc: "c \<le> j \<and> j \<le> last (c # cs)"
    using filter_upt_bounds[OF c[unfolded nonzero_cols_def]] Pj jn by blast
  have brr: "r \<le> i \<and> i \<le> last (r # rs)"
    using filter_upt_bounds[OF r[unfolded nonzero_rows_def]] Qi i lu by auto
  have "boundingRect ?u = (int c, int r, int (last (c # cs) - c + 1), int (last (r # rs) - r + 1))"
    by (simp add: boundingRect_def c r)
  with br have "x = int c" "y = int r" "w = int (last (c # cs) - c + 1)" "h = int (last (r # rs) - r + 1)"
    by simp_all
  then show ?thesis using bc brr by auto
qed

lemma nonzero_col_hit:
  assumes "list_ex (\<lambda>row. c < length row \<and> row ! c \<noteq> 0) (astype_uint8 dm)"
  shows "\<exists>i<length dm. c < length (dm ! i) \<and> dm ! i ! c"
proof -
  from assms obtain row where row: "row \<in> set (astype_uint8 dm)" "c < length row" "row ! c \<noteq> 0"
    by (auto simp: list_ex_iff)
  then obtain i where i: "i < length (astype_uint8 dm)" "astype_uint8 dm ! i = row"
    by (auto simp: in_set_conv_nth)
  have li: "i < length dm" using i(1) by (simp add: astype_uint8_def)
  have lrow: "length row = length (dm ! i)" using i(2) li by (auto simp: astype_uint8_def)
  have "dm ! i ! c" using astype_uint8_nth[OF li, of c] row(2,3) lrow i(2) by simp
  then show ?thesis using li lrow row(2) by auto
qed

lemma nonzero_row_hit:
  assumes "r < length dm" and "list_ex (\<lambda>v. v \<noteq> 0) (astype_uint8 dm ! r)"
  shows "\<exists>j<length (dm ! r). dm ! r ! j"
proof -
  from assms(2) obtain j where j: "j < length (astype_uint8 dm ! r)" "astype_uint8 dm ! r ! j \<noteq> 0"
    by (auto simp: list_ex_iff in_set_conv_nth)
  have lrow: "length (astype_uint8 dm ! r) = length (dm ! r)"
    using assms(1) by (simp add: astype_uint8_def)
  then have "dm ! r ! j" using astype_uint8_nth[OF assms(1), of j] j by simp
  then show ?thesis using j(1) lrow by auto
qed

lemma boundingRect_tight:
  assumes br: "boundingRect (astype_uint8 dm) = (x, y, w, h)"
    and i: "i < length dm" and j: "j < length (dm ! i)" and t: "dm ! i ! j"
  shows "\<exists>c c' r r'. x = int c \<and> w = int (c' - c + 1) \<and> c \<le> c' \<and>
           y = int r \<and> h = int (r' - r + 1) \<and> r \<le> r' \<and> r' < length dm \<and>
           (\<exists>i<length dm. c < length (dm ! i) \<and> dm ! i ! c) \<and>
           (\<exists>i<length dm. c' < length (dm ! i) \<and> dm ! i ! c') \<and>
           (\<exists>j<length (dm ! r). dm ! r ! j) \<and>
           (\<exists>j<length (dm ! r'). dm ! r' ! j)"
proof -
  let ?u = "astype_uint8 dm"
  have lu: "length ?u = length dm" by (simp add: astype_uint8_def)
  from boundingRect_encloses[OF br i j t] have pos: "0 < w" "0 < h" by auto
  obtain c cs r rs where c: "nonzero_cols ?u = c # cs" and r: "nonzero_rows ?u = r # rs"
    using br pos by (auto simp: boundingRect_def split: list.splits)
  have eq: "x = int c" "y = int r" "w = int (last (c # cs) - c + 1)" "h = int (last (r # rs) - r + 1)"
    using br by (simp_all add: boundingRect_def c r)
  note fc = filter_upt_bounds[OF c[unfolded nonzero_cols_def]]
  note fr = filter_upt_bounds[OF r[unfolded nonzero_rows_def]]
  have r1: "r < length dm" using fr lu by auto
  have r2: "last (r # rs) < length dm" using fr lu by auto
  have "\<exists>i<length dm. c < length (dm ! i) \<and> dm ! i ! c"
    using fc by (intro nonzero_col_hit) blast
  moreover have "\<exists>i<length dm. last (c # cs) < length (dm ! i) \<and> dm ! i ! last (c # cs)"
    using fc by (intro nonzero_col_hit) blast
  moreover have "\<exists>j<length (dm ! r). dm ! r ! j"
    using fr r1 by (intro nonzero_row_hit) blast+
  moreover have "\<exists>j<length (dm ! last (r # rs)). dm ! last (r # rs) ! j"
    using fr r2 by (intro nonzero_row_hit) blast+
  moreover have "c \<le> last (c # cs)" "r \<le> last (r # rs)" using fc fr by blast+
  ultimately show ?thesis using eq r2 by blast
qed


section \<open>The selection of both classes\<close>


lemma MaskDropoutV2_dropout_mask_dims:
  assumes "label_ok L msk"
    and "MaskDropoutV2_get_params_dependent_on_targets L self g msk = Inr r"
    and "params_dropout_mask r = Some dm"
  shows "map length dm = map length msk"
proof -
  obtain label_image num_labels where lab: "label L msk = (label_image, num_labels)"
    by (cases "label L msk")
  have dims: "map length label_image = map length msk"
    using assms(1) lab by (rule label_ok_dims)
  show ?thesis
    using assms(2,3) build_dropout_mask_dims[OF dims]
    by (auto simp: MaskDropoutV2_get_params_dependent_on_targets_def lab Let_def
        split: if_splits sum.splits prod.splits)
qed

lemma py_int_fraction_bounds:
  assumes "0 \<le> fmin" and "fmin \<le> fmax" and "fmax \<le> 1" and "0 \<le> N"
  shows "0 \<le> py_int (of_int N * fmin) \<and> py_int (of_int N * fmin) \<le> py_int (of_int N * fmax) \<and>
         py_int (of_int N * fmax) \<le> N"
proof -
  have n: "(0::real) \<le> of_int N" using assms(4) by simp
  have a: "0 \<le> of_int N * fmin" using n assms(1) by simp
  have b: "0 \<le> of_int N * fmax" using n assms(1,2) by simp
  have ab: "of_int N * fmin \<le> of_int N * fmax" using n assms(2) by (rule mult_left_mono[rotated])
  have c: "of_int N * fmax \<le> of_int N" using n assms(3) mult_left_mono[of fmax 1 "of_int N"] by simp
  have "\<lfloor>of_int N * fmax\<rfloor> \<le> \<lfloor>(of_int N :: real)\<rfloor>" using c by (rule floor_mono)
  then have "\<lfloor>of_int N * fmax\<rfloor> \<le> N" by simp
  moreover have "\<lfloor>of_int N * fmin\<rfloor> \<le> \<lfloor>of_int N * fmax\<rfloor>" using ab by (rule floor_mono)
  moreover have "0 \<le> \<lfloor>of_int N * fmin\<rfloor>" using a by simp
  ultimately show ?thesis using a b by (simp add: py_int_def)
qed

lemma MaskDropout_selection_drawn:
  assumes "random_ok L" and "label_ok L msk" and "mask_ok msk"
    and "label L msk = (label_image, N)" and "1 \<le> N"
    and "MaskDropout_get_params_dependent_on_targets L self g msk = Inr r"
  shows "\<exists>k g1 ids.
           random_randint L g (fst (self_max_objects self)) (snd (self_max_objects self)) = Inr (k, g1) \<and>
           local_objects_to_drop r = Some (min N k) \<and> int (length ids) = min N k \<and>
           distinct ids \<and> set ids \<subseteq> {1..N} \<and>
           params_dropout_mask r = Some (build_dropout_mask msk label_image ids) \<and>
           (if min N k = N
            then ids = [1..N] \<and> local_labels_index r = None \<and> random_state r = g1
            else random_sample L g1 [1..N] (min N k) = Inr (ids, random_state r) \<and>
                 local_labels_index r = Some ids)"
proof -
  have N0: "N \<noteq> 0" using assms(5) by simp
  obtain k g1 where draw: "random_randint L g (fst (self_max_objects self)) (snd (self_max_objects self)) = Inr (k, g1)"
    using assms(6) N0
    by (auto simp: MaskDropout_get_params_dependent_on_targets_def assms(4) split: sum.splits)
  show ?thesis
  proof (cases "min N k = N")
    case True
    then have r: "r = \<lparr>params_dropout_mask = Some (raster_gt0 msk),
                   local_objects_to_drop = Some N, local_labels_index = None, random_state = g1\<rparr>"
      using assms(6) N0 draw
      by (simp add: MaskDropout_get_params_dependent_on_targets_def assms(4))
    have "int (length [1..N]) = N" using assms(5) by simp
    moreover have "distinct [1..N]" "set [1..N] \<subseteq> {1..N}" by simp_all
    ultimately have "local_objects_to_drop r = Some (min N k) \<and> int (length [1..N]) = min N k \<and>
           distinct [1..N] \<and> set [1..N] \<subseteq> {1..N} \<and>
           params_dropout_mask r = Some (build_dropout_mask msk label_image [1..N]) \<and>
           (if min N k = N
            then [1..N] = [1..N] \<and> local_labels_index r = None \<and> random_state r = g1
            else random_sample L g1 [1..N] (min N k) = Inr ([1..N], random_state r) \<and>
                 local_labels_index r = Some [1..N])"
      using r True foreground_is_all_labels[OF assms(2,3,4)] by simp
    with draw show ?thesis by blast
  next
    case False
    then have kN: "k < N" "min N k = k" by (auto simp: min_def split: if_splits)
    have eq: "MaskDropout_get_params_dependent_on_targets L self g msk =
        (case random_sample L g1 [1..N] k of
           Inl e \<Rightarrow> Inl e
         | Inr (ids, g2) \<Rightarrow>
             Inr \<lparr>params_dropout_mask = Some (build_dropout_mask msk label_image ids),
                  local_objects_to_drop = Some k, local_labels_index = Some ids,
                  random_state = g2\<rparr>)"
      using N0 draw kN by (simp add: MaskDropout_get_params_dependent_on_targets_def assms(4))
    obtain ids g2 where s: "random_sample L g1 [1..N] k = Inr (ids, g2)"
      using assms(6) unfolding eq by (cases "random_sample L g1 [1..N] k") auto
    have r: "r = \<lparr>params_dropout_mask = Some (build_dropout_mask msk label_image ids),
                   local_objects_to_drop = Some k, local_labels_index = Some ids,
                   random_state = g2\<rparr>"
      using assms(6) unfolding eq s by simp
    have "local_objects_to_drop r = Some (min N k) \<and> int (length ids) = min N k \<and>
           distinct ids \<and> set ids \<subseteq> {1..N} \<and>
           params_dropout_mask r = Some (build_dropout_mask msk label_image ids) \<and>
           (if min N k = N
            then ids = [1..N] \<and> local_labels_index r = None \<and> random_state r = g1
            else random_sample L g1 [1..N] (min N k) = Inr (ids, random_state r) \<and>
                 local_labels_index r = Some ids)"
      using random_sample_Inr[OF assms(1) s] r s False kN(2) by simp
    with draw show ?thesis by blast
  qed
qed

lemma MaskDropoutV2_selection_drawn:
  assumes "random_ok L" and "label L msk = (label_image, N)" and "1 \<le> N"
    and "MaskDropoutV2_get_params_dependent_on_targets L self2 g msk = Inr r"
  shows "\<exists>k g1 ids.
           random_randint L g (py_int (of_int N * fst (self_max_objects self2)))
             (py_int (of_int N * snd (self_max_objects self2))) = Inr (k, g1) \<and>
           random_sample L g1 [1..N] k = Inr (ids, random_state r) \<and>
           local_objects_to_drop r = Some k \<and> local_labels_index r = Some ids \<and>
           int (length ids) = k \<and> distinct ids \<and> set ids \<subseteq> {1..N} \<and>
           params_dropout_mask r = Some (build_dropout_mask msk label_image ids)"
proof -
  have N0: "N \<noteq> 0" using assms(3) by simp
  obtain k g1 where draw: "random_randint L g (py_int (of_int N * fst (self_max_objects self2)))
             (py_int (of_int N * snd (self_max_objects self2))) = Inr (k, g1)"
    using assms(4) N0
    by (auto simp: MaskDropoutV2_get_params_dependent_on_targets_def assms(2) split: sum.splits)
  have eq: "MaskDropoutV2_get_params_dependent_on_targets L self2 g msk =
        (case random_sample L g1 [1..N] k of
           Inl e \<Rightarrow> Inl e
         | Inr (ids, g2) \<Rightarrow>
             Inr \<lparr>params_dropout_mask = Some (build_dropout_mask msk label_image ids),
                  local_objects_to_drop = Some k, local_labels_index = Some ids,
                  random_state = g2\<rparr>)"
    using N0 draw by (simp add: MaskDropoutV2_get_params_dependent_on_targets_def assms(2))
  obtain ids g2 where s: "random_sample L g1 [1..N] k = Inr (ids, g2)"
    using assms(4) unfolding eq by (cases "random_sample L g1 [1..N] k") auto
  have r: "r = \<lparr>params_dropout_mask = Some (build_dropout_mask msk label_image ids),
                 local_objects_to_drop = Some k, local_labels_index = Some ids,
                 random_state = g2\<rparr>"
    using assms(4) unfolding eq s by simp
  have "random_sample L g1 [1..N] k = Inr (ids, random_state r) \<and>
           local_objects_to_drop r = Some k \<and> local_labels_index r = Some ids \<and>
           int (length ids) = k \<and> distinct ids \<and> set ids \<subseteq> {1..N} \<and>
           params_dropout_mask r = Some (build_dropout_mask msk label_image ids)"
    using random_sample_Inr[OF assms(1) s] r s by simp
  with draw show ?thesis by blast
qed

lemma MaskDropout_returns:
  assumes "random_ok L" and "label L msk = (label_image, N)" and "1 \<le> N"
    and "0 \<le> fst (self_max_objects self)"
    and "fst (self_max_objects self) \<le> snd (self_max_objects self)"
  shows "\<exists>r. MaskDropout_get_params_dependent_on_targets L self g msk = Inr r"
proof -
  have N0: "N \<noteq> 0" using assms(3) by simp
  from random_randint_range[OF assms(1,5), of g] obtain k g1 where
    draw: "random_randint L g (fst (self_max_objects self)) (snd (self_max_objects self)) = Inr (k, g1)"
    and k: "fst (self_max_objects self) \<le> k" by blast
  show ?thesis
  proof (cases "min N k = N")
    case True
    then show ?thesis using draw N0
      by (simp add: MaskDropout_get_params_dependent_on_targets_def assms(2))
  next
    case False
    then have kN: "k < N" "min N k = k" by (auto simp: min_def split: if_splits)
    have "0 \<le> k" "k \<le> N" using k kN assms(4) by simp_all
    from random_sample_ids[OF assms(1) this, of g1] obtain ids g2 where
      "random_sample L g1 [1..N] k = Inr (ids, g2)" by blast
    then show ?thesis using draw N0 kN
      by (simp add: MaskDropout_get_params_dependent_on_targets_def assms(2))
  qed
qed

lemma MaskDropoutV2_returns:
  assumes "random_ok L" and "label L msk = (label_image, N)" and "1 \<le> N"
    and "0 \<le> fst (self_max_objects self2)"
    and "fst (self_max_objects self2) \<le> snd (self_max_objects self2)"
    and "snd (self_max_objects self2) \<le> 1"
  shows "\<exists>r. MaskDropoutV2_get_params_dependent_on_targets L self2 g msk = Inr r"
proof -
  have N0: "N \<noteq> 0" "0 \<le> N" using assms(3) by simp_all
  let ?a = "py_int (of_int N * fst (self_max_objects self2))"
  let ?b = "py_int (of_int N * snd (self_max_objects self2))"
  from py_int_fraction_bounds[OF assms(4,5,6) N0(2)]
  have ab: "0 \<le> ?a" "?a \<le> ?b" "?b \<le> N" by simp_all
  from random_randint_range[OF assms(1) ab(2), of g] obtain k g1 where
    draw: "random_randint L g ?a ?b = Inr (k, g1)" and k: "?a \<le> k" "k \<le> ?b" by blast
  have "0 \<le> k" "k \<le> N" using k ab by simp_all
  from random_sample_ids[OF assms(1) this, of g1] obtain ids g2 where
    "random_sample L g1 [1..N] k = Inr (ids, g2)" by blast
  then show ?thesis using draw N0
    by (simp add: MaskDropoutV2_get_params_dependent_on_targets_def assms(2))
qed

lemma MaskDropoutV2_coincident_footprints:
  assumes "label_ok L msk"
    and "MaskDropoutV2_get_params_dependent_on_targets L self g msk = Inr r"
    and "params_dropout_mask r = Some dm"
    and "self_image_fill_value self = Num v"
    and "map length img = map length msk"
  shows "\<exists>img' msk'. MaskDropoutV2_apply L self img (params_dropout_mask r) = Inr img' \<and>
            MaskDropoutV2_apply_to_mask self msk (params_dropout_mask r) = Inr msk' \<and>
            map length img' = map length img \<and> map length msk' = map length msk \<and>
            (\<forall>i<length dm. \<forall>j<length (dm ! i).
               (dm ! i ! j \<longrightarrow> img' ! i ! j = map (\<lambda>_. v) (img ! i ! j) \<and>
                              msk' ! i ! j = py_int (self_mask_fill_value self)) \<and>
               (\<not> dm ! i ! j \<longrightarrow> img' ! i ! j = img ! i ! j \<and> msk' ! i ! j = msk ! i ! j))"
proof -
  have dims: "map length dm = map length msk"
    using assms(1,2,3) by (rule MaskDropoutV2_dropout_mask_dims)
  have "map length img = map length dm" "map length msk = map length dm"
    using dims assms(5) by simp_all
  from fills_coincide[OF this, of "\<lambda>px. map (\<lambda>_. v) px" "\<lambda>_. py_int (self_mask_fill_value self)"]
  show ?thesis
    using assms(3,4) by (simp add: MaskDropoutV2_apply_def MaskDropoutV2_apply_to_mask_def)
qed

text \<open>The fraction policy raises as soon as the draw exceeds the number of labels.\<close>

lemma MaskDropoutV2_oversample_raises:
  assumes "label L msk = (label_image, N)" and "1 \<le> N"
    and "random_randint L g (py_int (of_int N * fst (self_max_objects self)))
           (py_int (of_int N * snd (self_max_objects self))) = Inr (k, g1)"
    and "N < k"
  shows "MaskDropoutV2_get_params_dependent_on_targets L self g msk = Inl ValueError"
  using assms
  by (simp add: MaskDropoutV2_get_params_dependent_on_targets_def random_sample_def)

section \<open>Runs on generators that answer alike\<close>

lemma same_draws_refl: "same_draws L g L g population"
  by (simp add: same_draws_def)

lemma same_draws_sample:
  assumes "same_draws L1 g1 L2 g2 population"
    and "randint L1 g1 a b = (k1, s1)" and "randint L2 g2 a b = (k2, s2)"
  shows "k1 = k2 \<and>
         (case random_sample L1 s1 population c of Inl e \<Rightarrow> Inl e | Inr (ids, t) \<Rightarrow> Inr ids) =
         (case random_sample L2 s2 population c of Inl e \<Rightarrow> Inl e | Inr (ids, t) \<Rightarrow> Inr ids)"
proof -
  from assms(1) have d: "fst (randint L1 g1 a b) = fst (randint L2 g2 a b)"
    and s: "\<And>k. k \<le> length population \<Longrightarrow>
           fst (sample L1 (snd (randint L1 g1 a b)) population k) =
           fst (sample L2 (snd (randint L2 g2 a b)) population k)"
    unfolding same_draws_def by blast+
  have k: "k1 = k2" using d assms(2,3) by simp
  show ?thesis
  proof (cases "c < 0 \<or> int (length population) < c")
    case True
    then show ?thesis using k by (auto simp: random_sample_def)
  next
    case False
    then have "nat c \<le> length population" by linarith
    from s[OF this] have "fst (sample L1 s1 population (nat c)) = fst (sample L2 s2 population (nat c))"
      using assms(2,3) by simp
    then show ?thesis using k False
      by (cases "sample L1 s1 population (nat c)", cases "sample L2 s2 population (nat c)")
         (simp add: random_sample_def)
  qed
qed

lemma MaskDropout_selected_eq:
  assumes "label L1 msk = label L2 msk"
    and "same_draws L1 g1 L2 g2 [1..snd (label L1 msk)]"
  shows "selected (MaskDropout_get_params_dependent_on_targets L1 self g1 msk) =
         selected (MaskDropout_get_params_dependent_on_targets L2 self g2 msk)"
proof -
  obtain label_image N where lab1: "label L1 msk = (label_image, N)"
    by (cases "label L1 msk")
  then have lab: "label L1 msk = (label_image, N)" "label L2 msk = (label_image, N)"
    using assms(1) by simp_all
  let ?a = "fst (self_max_objects self)" and ?b = "snd (self_max_objects self)"
  obtain k1 s1 k2 s2 where r: "randint L1 g1 ?a ?b = (k1, s1)" "randint L2 g2 ?a ?b = (k2, s2)"
    by (cases "randint L1 g1 ?a ?b", cases "randint L2 g2 ?a ?b") blast
  have sd: "same_draws L1 g1 L2 g2 [1..N]" using assms(2) lab by simp
  note ss = same_draws_sample[OF sd r, of "min N k1"]
  have k: "k1 = k2"
    and s: "(case random_sample L1 s1 [1..N] (min N k1) of Inl e \<Rightarrow> Inl e | Inr (ids, t) \<Rightarrow> Inr ids) =
         (case random_sample L2 s2 [1..N] (min N k1) of Inl e \<Rightarrow> Inl e | Inr (ids, t) \<Rightarrow> Inr ids)"
    using ss by blast+
  show ?thesis
    using s r unfolding k
    by (auto simp: MaskDropout_get_params_dependent_on_targets_def selected_def lab
        random_randint_def Let_def split: sum.splits prod.splits)
qed

lemma MaskDropoutV2_selected_eq:
  assumes "label L1 msk = label L2 msk"
    and "same_draws L1 g1 L2 g2 [1..snd (label L1 msk)]"
  shows "selected (MaskDropoutV2_get_params_dependent_on_targets L1 self2 g1 msk) =
         selected (MaskDropoutV2_get_params_dependent_on_targets L2 self2 g2 msk)"
proof -
  obtain label_image N where lab1: "label L1 msk = (label_image, N)"
    by (cases "label L1 msk")
  then have lab: "label L1 msk = (label_image, N)" "label L2 msk = (label_image, N)"
    using assms(1) by simp_all
  let ?a = "py_int (of_int N * fst (self_max_objects self2))"
  let ?b = "py_int (of_int N * snd (self_max_objects self2))"
  obtain k1 s1 k2 s2 where r: "randint L1 g1 ?a ?b = (k1, s1)" "randint L2 g2 ?a ?b = (k2, s2)"
    by (cases "randint L1 g1 ?a ?b", cases "randint L2 g2 ?a ?b") blast
  have sd: "same_draws L1 g1 L2 g2 [1..N]" using assms(2) lab by simp
  note ss = same_draws_sample[OF sd r, of k1]
  have k: "k1 = k2"
    and s: "(case random_sample L1 s1 [1..N] k1 of Inl e \<Rightarrow> Inl e | Inr (ids, t) \<Rightarrow> Inr ids) =
         (case random_sample L2 s2 [1..N] k1 of Inl e \<Rightarrow> Inl e | Inr (ids, t) \<Rightarrow> Inr ids)"
    using ss by blast+
  show ?thesis
    using s r unfolding k
    by (auto simp: MaskDropoutV2_get_params_dependent_on_targets_def selected_def lab
        random_randint_def Let_def split: sum.splits prod.splits)
qed

section \<open>Concrete runs\<close>

lemma concrete_transforms_built:
  "MaskDropout_init (Scalar 1) (Num 0) 0 False (1/2) = Inr drop_one"
  "MaskDropout_init (Pair 2 3) (Num 0) 0 False (1/2) = Inr drop_two_or_three"
  "MaskDropoutV2_init (0, 1/2) (Num 0) 0 False (1/2) = Inr drop_up_to_half"
  "MaskDropout_init (Scalar 1) Inpaint 0 False (1/2) = Inr inpaint_all"
  by (simp_all add: MaskDropout_init_def MaskDropoutV2_init_def DualTransform_init_def
      to_tuple_def drop_one_def drop_two_or_three_def drop_up_to_half_def inpaint_all_def)

lemma two_objects_label: "label tape_libs two_objects_mask = (two_objects_mask, 2)"
  by (simp add: tape_libs_def instance_label_def two_objects_mask_def)

lemma two_objects_label_ok: "label_ok tape_libs two_objects_mask"
  by (simp add: label_ok_def two_objects_label) (simp add: two_objects_mask_def)

lemma two_objects_mask_ok: "mask_ok two_objects_mask"
  by (simp add: mask_ok_def two_objects_mask_def)



lemma drop_one_run_11:
  "MaskDropout_get_params_dependent_on_targets tape_libs drop_one [1, 1] two_objects_mask =
     Inr \<lparr>params_dropout_mask = Some [[False, False], [False, True]],
          local_objects_to_drop = Some 1, local_labels_index = Some [2], random_state = []\<rparr>"
  by (simp add: MaskDropout_get_params_dependent_on_targets_def two_objects_label drop_one_def)
     (simp add: tape_libs_def two_objects_mask_def random_randint_def random_sample_def
        tape_randint_def build_dropout_mask_def raster_or_def raster_eq_def np_zeros_bool_def)

lemma drop_up_to_half_run_11:
  "MaskDropoutV2_get_params_dependent_on_targets tape_libs drop_up_to_half [1, 1] two_objects_mask =
     Inr \<lparr>params_dropout_mask = Some [[False, False], [False, True]],
          local_objects_to_drop = Some 1, local_labels_index = Some [2], random_state = []\<rparr>"
  by (simp add: MaskDropoutV2_get_params_dependent_on_targets_def two_objects_label
        drop_up_to_half_def py_int_def)
     (simp add: tape_libs_def two_objects_mask_def random_randint_def random_sample_def
        tape_randint_def build_dropout_mask_def raster_or_def raster_eq_def np_zeros_bool_def)

lemma drop_up_to_half_draw_11:
  "random_randint tape_libs [1, 1]
     (py_int (of_int 2 * fst (self_max_objects drop_up_to_half)))
     (py_int (of_int 2 * snd (self_max_objects drop_up_to_half))) = Inr (1, [1])"
  by (simp add: drop_up_to_half_def py_int_def random_randint_def tape_libs_def tape_randint_def)

lemma tapes_same_draws:
  "same_draws tape_libs [1, 1] tape_libs [1, 1, 7] [1..snd (label tape_libs two_objects_mask)]"
proof -
  have s: "fst (tape_sample [1] [1, 2] k) = fst (tape_sample [1, 7] [1, 2] k)" if "k \<le> 2" for k
  proof -
    from that have "k = 0 \<or> k = Suc 0 \<or> k = Suc (Suc 0)" by arith
    then show ?thesis by (elim disjE) simp_all
  qed
  have pop: "[1..snd (label tape_libs two_objects_mask)] = [1, 2]"
    by (simp add: two_objects_label upto_rec1)
  have rnd: "randint tape_libs = tape_randint" "sample tape_libs = tape_sample"
    by (simp_all add: tape_libs_def)
  show ?thesis
    unfolding pop same_draws_def rnd using s by (simp add: tape_randint_def)
qed

section \<open>C1: the fraction policy does not clip the drawn count\<close>

text \<open>
  Claim C1 asks that the drawn count stays within \<open>[0, N]\<close>, so that \<^verbatim>\<open>MaskDropoutV2\<close>
  never samples more ids than there are labels. The source does not clip the draw of
  the fraction policy: with the bounds \<open>(0, 2)\<close>, which the constructor accepts, one
  label and the draw 2, \<^verbatim>\<open>random.sample\<close> is asked for 2 ids out of 1 and raises
  ValueError. \<^verbatim>\<open>MaskDropout\<close> clips the same draw to 1 and returns.
\<close>

theorem C1_fraction_policy_oversamples:
  "MaskDropoutV2_init (0, 2) (Num 0) 0 False (1/2) =
     Inr \<lparr>self_always_apply = False, self_p = 1/2, self_max_objects = (0, 2),
          self_image_fill_value = Num 0, self_mask_fill_value = 0\<rparr> \<and>
   MaskDropoutV2_get_params_dependent_on_targets tape_libs
     \<lparr>self_always_apply = False, self_p = 1/2, self_max_objects = (0, 2),
      self_image_fill_value = Num 0, self_mask_fill_value = 0\<rparr> [2] [[1]] = Inl ValueError \<and>
   MaskDropout_get_params_dependent_on_targets tape_libs
     \<lparr>self_always_apply = False, self_p = 1/2, self_max_objects = (0, 2),
      self_image_fill_value = Num 0, self_mask_fill_value = 0\<rparr> [2] [[1]] =
     Inr \<lparr>params_dropout_mask = Some [[True]], local_objects_to_drop = Some 1,
          local_labels_index = None, random_state = []\<rparr>"
  by (simp add: MaskDropoutV2_init_def MaskDropout_init_def DualTransform_init_def to_tuple_def
      MaskDropoutV2_get_params_dependent_on_targets_def
      MaskDropout_get_params_dependent_on_targets_def tape_libs_def instance_label_def
      random_randint_def random_sample_def tape_randint_def py_int_def raster_gt0_def)

section \<open>C2: the fixed-count policy\<close>

text \<open>
  Claim C2. On a mask of non-negative pixels with \<open>N \<ge> 1\<close> components and bounds
  \<open>min_objects \<le> max_objects\<close>, \<^verbatim>\<open>MaskDropout.get_params_dependent_on_targets\<close> draws
  \<open>k\<close> with \<^verbatim>\<open>randint(min_objects, max_objects)\<close>, so \<open>k\<close> lies within the bounds, and
  goes on with \<open>min k N\<close>: the call raises only for a negative \<open>k\<close>. When \<open>min k N = N\<close>
  it does not sample (the generator is left as \<^verbatim>\<open>randint\<close> left it, no list of ids is
  built) and the dropout mask is true exactly on the non-zero pixels of the mask, which
  is the mask that selecting every label \<open>1..N\<close> gives.
\<close>

theorem C2_fixed_count_policy:
  assumes "random_ok L" and "label_ok L msk" and "mask_ok msk"
    and "label L msk = (label_image, N)" and "1 \<le> N"
    and "self_max_objects self = (min_objects, max_objects)" and "min_objects \<le> max_objects"
    and "randint L g min_objects max_objects = (k, g1)"
  shows "min_objects \<le> k \<and> k \<le> max_objects \<and>
         (case MaskDropout_get_params_dependent_on_targets L self g msk of
            Inl e \<Rightarrow> k < 0 \<and> e = ValueError
          | Inr r \<Rightarrow> local_objects_to_drop r = Some (min k N)) \<and>
         (min k N = N \<longrightarrow>
            MaskDropout_get_params_dependent_on_targets L self g msk =
              Inr \<lparr>params_dropout_mask = Some (map (map (\<lambda>v. v \<noteq> 0)) msk),
                   local_objects_to_drop = Some N, local_labels_index = None,
                   random_state = g1\<rparr> \<and>
            map (map (\<lambda>v. v \<noteq> 0)) msk = build_dropout_mask msk label_image [1..N])"
proof -
  from random_randint_range[OF assms(1,7), of g] assms(8)
  have draw: "random_randint L g min_objects max_objects = Inr (k, g1)"
    and range: "min_objects \<le> k" "k \<le> max_objects"
    by auto
  have N0: "N \<noteq> 0" using assms(5) by simp
  have all: "MaskDropout_get_params_dependent_on_targets L self g msk =
              Inr \<lparr>params_dropout_mask = Some (map (map (\<lambda>v. v \<noteq> 0)) msk),
                   local_objects_to_drop = Some N, local_labels_index = None,
                   random_state = g1\<rparr> \<and>
            map (map (\<lambda>v. v \<noteq> 0)) msk = build_dropout_mask msk label_image [1..N]"
    if "min k N = N"
  proof -
    have "min N k = N" using that by (simp add: min.commute)
    then show ?thesis
      using draw N0 raster_gt0_nonzero[OF assms(3)]
        foreground_is_all_labels[OF assms(2,3,4)]
      by (simp add: MaskDropout_get_params_dependent_on_targets_def assms(4,6))
  qed
  have outcome: "(case MaskDropout_get_params_dependent_on_targets L self g msk of
            Inl e \<Rightarrow> k < 0 \<and> e = ValueError
          | Inr r \<Rightarrow> local_objects_to_drop r = Some (min k N))"
  proof (cases "min k N = N")
    case True
    with all show ?thesis by simp
  next
    case False
    then have kN: "k < N" "min N k = k" by (auto simp: min_def split: if_splits)
    show ?thesis
    proof (cases "k < 0")
      case True
      then show ?thesis
        using draw N0 kN
        by (simp add: MaskDropout_get_params_dependent_on_targets_def assms(4,6)
            random_sample_def)
    next
      case False
      then have "0 \<le> k" "k \<le> N" using kN by simp_all
      from random_sample_ids[OF assms(1) this, of g1] obtain ids g2 where
        "random_sample L g1 [1..N] k = Inr (ids, g2)" by blast
      then show ?thesis
        using draw N0 kN
        by (simp add: MaskDropout_get_params_dependent_on_targets_def assms(4,6))
    qed
  qed
  show ?thesis using range outcome all by blast
qed

theorem C2_fixed_count_policy_witness:
  "random_ok tape_libs \<and> label_ok tape_libs two_objects_mask \<and> mask_ok two_objects_mask \<and>
   label tape_libs two_objects_mask = (two_objects_mask, 2) \<and>
   self_max_objects drop_two_or_three = (2, 3) \<and>
   randint tape_libs [1] 2 3 = (3, []) \<and>
   MaskDropout_get_params_dependent_on_targets tape_libs drop_two_or_three [1] two_objects_mask =
     Inr \<lparr>params_dropout_mask = Some (map (map (\<lambda>v. v \<noteq> 0)) two_objects_mask),
          local_objects_to_drop = Some 2, local_labels_index = None, random_state = []\<rparr> \<and>
   map (map (\<lambda>v. v \<noteq> 0)) two_objects_mask =
     build_dropout_mask two_objects_mask two_objects_mask [1..2]"
proof -
  have h5: "(1::int) \<le> 2" by simp
  have h6: "self_max_objects drop_two_or_three = (2, 3)" by (simp add: drop_two_or_three_def)
  have h7: "(2::int) \<le> 3" by simp
  have h8: "randint tape_libs [1] 2 3 = (3, [])" by (simp add: tape_libs_def tape_randint_def)
  have m: "min 3 2 = (2::int)" by simp
  from C2_fixed_count_policy [OF tape_libs_random_ok two_objects_label_ok two_objects_mask_ok
      two_objects_label h5 h6 h7 h8]
  have "min 3 2 = (2::int) \<longrightarrow>
      MaskDropout_get_params_dependent_on_targets tape_libs drop_two_or_three [1] two_objects_mask =
        Inr \<lparr>params_dropout_mask = Some (map (map (\<lambda>v. v \<noteq> 0)) two_objects_mask),
             local_objects_to_drop = Some 2, local_labels_index = None, random_state = []\<rparr> \<and>
      map (map (\<lambda>v. v \<noteq> 0)) two_objects_mask =
        build_dropout_mask two_objects_mask two_objects_mask [1..2]"
    by (elim conjE)
  with m have "MaskDropout_get_params_dependent_on_targets tape_libs drop_two_or_three [1] two_objects_mask =
        Inr \<lparr>params_dropout_mask = Some (map (map (\<lambda>v. v \<noteq> 0)) two_objects_mask),
             local_objects_to_drop = Some 2, local_labels_index = None, random_state = []\<rparr> \<and>
      map (map (\<lambda>v. v \<noteq> 0)) two_objects_mask =
        build_dropout_mask two_objects_mask two_objects_mask [1..2]"
    by (rule rev_mp)
  with tape_libs_random_ok two_objects_label_ok two_objects_mask_ok two_objects_label h6 h8
  show ?thesis by (intro conjI) (erule conjunct1 conjunct2 | assumption)+
qed

section \<open>C3: a mask without objects leaves image and mask untouched\<close>

text \<open>
  Claim C3. When the labelling finds no component (\<open>num_labels = 0\<close>), both classes set
  \<^verbatim>\<open>dropout_mask\<close> to \<open>None\<close> without consuming a random number, and \<^verbatim>\<open>apply\<close> and
  \<^verbatim>\<open>apply_to_mask\<close> then return the very image and mask they were given.
\<close>

theorem C3_no_components_identity:
  assumes "snd (label L msk) = 0"
  shows "(\<exists>r. MaskDropout_get_params_dependent_on_targets L self g msk = Inr r \<and>
            params_dropout_mask r = None \<and> random_state r = g \<and>
            MaskDropout_apply L self img (params_dropout_mask r) = Inr img \<and>
            MaskDropout_apply_to_mask self msk (params_dropout_mask r) = Inr msk) \<and>
         (\<exists>r. MaskDropoutV2_get_params_dependent_on_targets L self2 g msk = Inr r \<and>
            params_dropout_mask r = None \<and> random_state r = g \<and>
            MaskDropoutV2_apply L self2 img (params_dropout_mask r) = Inr img \<and>
            MaskDropoutV2_apply_to_mask self2 msk (params_dropout_mask r) = Inr msk)"
proof -
  obtain label_image where lab: "label L msk = (label_image, 0)"
    using assms by (cases "label L msk") simp
  have "MaskDropout_get_params_dependent_on_targets L self g msk =
          Inr \<lparr>params_dropout_mask = None, local_objects_to_drop = None,
               local_labels_index = None, random_state = g\<rparr>"
    by (simp add: MaskDropout_get_params_dependent_on_targets_def lab)
  moreover have "MaskDropoutV2_get_params_dependent_on_targets L self2 g msk =
          Inr \<lparr>params_dropout_mask = None, local_objects_to_drop = None,
               local_labels_index = None, random_state = g\<rparr>"
    by (simp add: MaskDropoutV2_get_params_dependent_on_targets_def lab)
  ultimately show ?thesis
    by (simp add: MaskDropout_apply_def MaskDropout_apply_to_mask_def
        MaskDropoutV2_apply_def MaskDropoutV2_apply_to_mask_def)
qed

theorem C3_no_components_identity_witness:
  "snd (label tape_libs [[0, 0], [0, 0]]) = 0 \<and>
   (\<exists>r. MaskDropout_get_params_dependent_on_targets tape_libs
           \<lparr>self_always_apply = False, self_p = 1/2, self_max_objects = (1, 2),
            self_image_fill_value = Num 0, self_mask_fill_value = 0\<rparr> [5] [[0, 0], [0, 0]] = Inr r \<and>
        params_dropout_mask r = None \<and> random_state r = [5] \<and>
        MaskDropout_apply tape_libs
           \<lparr>self_always_apply = False, self_p = 1/2, self_max_objects = (1, 2),
            self_image_fill_value = Num 0, self_mask_fill_value = 0\<rparr>
           [[[7], [8]], [[9], [10]]] (params_dropout_mask r) = Inr [[[7], [8]], [[9], [10]]] \<and>
        MaskDropout_apply_to_mask
           \<lparr>self_always_apply = False, self_p = 1/2, self_max_objects = (1, 2),
            self_image_fill_value = Num 0, self_mask_fill_value = 0\<rparr>
           [[0, 0], [0, 0]] (params_dropout_mask r) = Inr [[0, 0], [0, 0]])"
proof -
  have h: "snd (label tape_libs [[0, 0], [0, 0]]) = 0"
    by (simp add: tape_libs_def instance_label_def)
  from C3_no_components_identity [OF h] have "\<exists>r. MaskDropout_get_params_dependent_on_targets tape_libs
           \<lparr>self_always_apply = False, self_p = 1/2, self_max_objects = (1, 2),
            self_image_fill_value = Num 0, self_mask_fill_value = 0\<rparr> [5] [[0, 0], [0, 0]] = Inr r \<and>
        params_dropout_mask r = None \<and> random_state r = [5] \<and>
        MaskDropout_apply tape_libs
           \<lparr>self_always_apply = False, self_p = 1/2, self_max_objects = (1, 2),
            self_image_fill_value = Num 0, self_mask_fill_value = 0\<rparr>
           [[[7], [8]], [[9], [10]]] (params_dropout_mask r) = Inr [[[7], [8]], [[9], [10]]] \<and>
        MaskDropout_apply_to_mask
           \<lparr>self_always_apply = False, self_p = 1/2, self_max_objects = (1, 2),
            self_image_fill_value = Num 0, self_mask_fill_value = 0\<rparr>
           [[0, 0], [0, 0]] (params_dropout_mask r) = Inr [[0, 0], [0, 0]]"
    by (rule conjunct1)
  with h show ?thesis by (rule conjI)
qed

section \<open>C4: the constructors do not validate the bounds\<close>

text \<open>
  Claim C4, as amended. Neither constructor raises: \<^verbatim>\<open>MaskDropout.__init__\<close> stores
  \<^verbatim>\<open>to_tuple(max_objects, 1)\<close> and \<^verbatim>\<open>MaskDropoutV2.__init__\<close> stores the pair it is given,
  whatever the bounds are. An empty range \<open>max < min\<close> raises ValueError only later, in
  \<^verbatim>\<open>MaskDropout.get_params_dependent_on_targets\<close>, on a mask that has a component.
\<close>

theorem C4_constructors_store_bounds_unchecked:
  "MaskDropout_init max_objects image_fill_value mask_fill_value always_apply p =
     Inr \<lparr>self_always_apply = always_apply, self_p = p,
          self_max_objects = to_tuple max_objects 1,
          self_image_fill_value = image_fill_value, self_mask_fill_value = mask_fill_value\<rparr> \<and>
   (\<exists>self2. MaskDropoutV2_init bounds image_fill_value mask_fill_value always_apply p = Inr self2 \<and>
      self_max_objects self2 = bounds) \<and>
   (snd (self_max_objects self) < fst (self_max_objects self) \<and> snd (label L msk) \<noteq> 0 \<longrightarrow>
      MaskDropout_get_params_dependent_on_targets L self g msk = Inl ValueError)"
proof -
  have "MaskDropout_get_params_dependent_on_targets L self g msk = Inl ValueError"
    if "snd (self_max_objects self) < fst (self_max_objects self)" and "snd (label L msk) \<noteq> 0"
  proof -
    obtain label_image num_labels where lab: "label L msk = (label_image, num_labels)"
      by (cases "label L msk")
    with that show ?thesis
      by (simp add: MaskDropout_get_params_dependent_on_targets_def random_randint_def)
  qed
  then show ?thesis
    by (simp add: MaskDropout_init_def MaskDropoutV2_init_def DualTransform_init_def)
qed

theorem C4_constructors_store_bounds_unchecked_witness:
  "snd (self_max_objects \<lparr>self_always_apply = False, self_p = 1/2, self_max_objects = (5::int, 2),
          self_image_fill_value = Num 0, self_mask_fill_value = 0\<rparr>)
     < fst (self_max_objects \<lparr>self_always_apply = False, self_p = 1/2, self_max_objects = (5::int, 2),
          self_image_fill_value = Num 0, self_mask_fill_value = 0\<rparr>) \<and>
   snd (label tape_libs [[1]]) \<noteq> 0 \<and>
   MaskDropout_get_params_dependent_on_targets tape_libs
     \<lparr>self_always_apply = False, self_p = 1/2, self_max_objects = (5, 2),
      self_image_fill_value = Num 0, self_mask_fill_value = 0\<rparr> [3] [[1]] = Inl ValueError"
proof -
  have h1: "snd (self_max_objects \<lparr>self_always_apply = False, self_p = 1/2, self_max_objects = (5::int, 2),
          self_image_fill_value = Num 0, self_mask_fill_value = 0\<rparr>)
     < fst (self_max_objects \<lparr>self_always_apply = False, self_p = 1/2, self_max_objects = (5::int, 2),
          self_image_fill_value = Num 0, self_mask_fill_value = 0\<rparr>)"
    by simp
  have h2: "snd (label tape_libs [[1]]) \<noteq> 0"
    by (simp add: tape_libs_def instance_label_def)
  from C4_constructors_store_bounds_unchecked
  have "snd (self_max_objects \<lparr>self_always_apply = False, self_p = 1/2, self_max_objects = (5::int, 2),
          self_image_fill_value = Num 0, self_mask_fill_value = 0\<rparr>)
     < fst (self_max_objects \<lparr>self_always_apply = False, self_p = 1/2, self_max_objects = (5::int, 2),
          self_image_fill_value = Num 0, self_mask_fill_value = 0\<rparr>) \<and>
   snd (label tape_libs [[1]]) \<noteq> 0 \<longrightarrow>
   MaskDropout_get_params_dependent_on_targets tape_libs
     \<lparr>self_always_apply = False, self_p = 1/2, self_max_objects = (5, 2),
      self_image_fill_value = Num 0, self_mask_fill_value = 0\<rparr> [3] [[1]] = Inl ValueError"
    by (rule conjunct2 [THEN conjunct2])
  with h1 h2 show ?thesis by (intro conjI) (rule h1, rule h2, erule mp, rule conjI [OF h1 h2])
qed

text \<open>The claim as stated fails: a pair with \<open>min > max\<close>, a pair of negative counts and a
  pair of fractions outside \<open>[0, 1]\<close> with \<open>fmin > fmax\<close> are all accepted.\<close>

theorem C4_invalid_bounds_accepted_counterexample:
  "MaskDropout_init (Pair 5 2) (Num 0) 0 False (1/2) =
     Inr \<lparr>self_always_apply = False, self_p = 1/2, self_max_objects = (5, 2),
          self_image_fill_value = Num 0, self_mask_fill_value = 0\<rparr> \<and>
   MaskDropout_init (Pair (- 3) (- 1)) (Num 0) 0 False (1/2) =
     Inr \<lparr>self_always_apply = False, self_p = 1/2, self_max_objects = (- 3, - 1),
          self_image_fill_value = Num 0, self_mask_fill_value = 0\<rparr> \<and>
   MaskDropoutV2_init (3/2, - 1) (Num 0) 0 False (1/2) =
     Inr \<lparr>self_always_apply = False, self_p = 1/2, self_max_objects = (3/2, - 1),
          self_image_fill_value = Num 0, self_mask_fill_value = 0\<rparr>"
  by (simp add: MaskDropout_init_def MaskDropoutV2_init_def DualTransform_init_def to_tuple_def)

section \<open>C5: inpainting makes no check of the channel count\<close>

text \<open>
  Claim C5, as amended. With the fill \<^verbatim>\<open>"inpaint"\<close>, \<^verbatim>\<open>apply\<close> of either class hands the
  image as it is, whatever its channel count, to the inpainting routine, with the
  dropout mask cast to uint8 and the radius computed from its bounding rectangle, and
  returns what the routine returns: there is an error only if the routine raises one.
\<close>

theorem C5_inpaint_makes_no_channel_check:
  assumes "self_image_fill_value self = Inpaint" and "self_image_fill_value self2 = Inpaint"
  shows "MaskDropout_apply L self img (Some dm) =
           inpaint L img (astype_uint8 dm)
             (case boundingRect (astype_uint8 dm) of (x, y, w, h) \<Rightarrow> min 3 (max w h div 2)) \<and>
         MaskDropoutV2_apply L self2 img (Some dm) =
           inpaint L img (astype_uint8 dm)
             (case boundingRect (astype_uint8 dm) of (x, y, w, h) \<Rightarrow> min 3 (max w h div 2))"
  using assms
  by (simp add: MaskDropout_apply_def MaskDropoutV2_apply_def Let_def split: prod.splits)

theorem C5_inpaint_makes_no_channel_check_witness:
  "self_image_fill_value
     \<lparr>self_always_apply = False, self_p = 1/2, self_max_objects = (1::int, 1),
      self_image_fill_value = Inpaint, self_mask_fill_value = 0\<rparr> = Inpaint \<and>
   self_image_fill_value
     \<lparr>self_always_apply = False, self_p = 1/2, self_max_objects = (0::real, 1),
      self_image_fill_value = Inpaint, self_mask_fill_value = 0\<rparr> = Inpaint \<and>
   MaskDropoutV2_apply tape_libs
     \<lparr>self_always_apply = False, self_p = 1/2, self_max_objects = (0, 1),
      self_image_fill_value = Inpaint, self_mask_fill_value = 0\<rparr>
     [[[10, 11, 12], [20, 21, 22], [30, 31, 32], [40, 41, 42]]]
     (Some [[True, True, True, True]])
   = Inr [[[2, 2, 2], [2, 2, 2], [2, 2, 2], [2, 2, 2]]]"
proof -
  have h1: "self_image_fill_value
     \<lparr>self_always_apply = False, self_p = 1/2, self_max_objects = (1::int, 1),
      self_image_fill_value = Inpaint, self_mask_fill_value = 0\<rparr> = Inpaint"
    by simp
  have h2: "self_image_fill_value
     \<lparr>self_always_apply = False, self_p = 1/2, self_max_objects = (0::real, 1),
      self_image_fill_value = Inpaint, self_mask_fill_value = 0\<rparr> = Inpaint"
    by simp
  have "inpaint tape_libs [[[10, 11, 12], [20, 21, 22], [30, 31, 32], [40, 41, 42]]]
          (astype_uint8 [[True, True, True, True]])
          (case boundingRect (astype_uint8 [[True, True, True, True]]) of
             (x, y, w, h) \<Rightarrow> min 3 (max w h div 2))
        = Inr [[[2, 2, 2], [2, 2, 2], [2, 2, 2], [2, 2, 2]]]"
    by (simp add: tape_libs_def probe_inpaint_def astype_uint8_def boundingRect_def
        nonzero_cols_def nonzero_rows_def)
  with C5_inpaint_makes_no_channel_check [OF h1 h2, of tape_libs
      "[[[10, 11, 12], [20, 21, 22], [30, 31, 32], [40, 41, 42]]]" "[[True, True, True, True]]"]
  have "MaskDropoutV2_apply tape_libs
     \<lparr>self_always_apply = False, self_p = 1/2, self_max_objects = (0, 1),
      self_image_fill_value = Inpaint, self_mask_fill_value = 0\<rparr>
     [[[10, 11, 12], [20, 21, 22], [30, 31, 32], [40, 41, 42]]]
     (Some [[True, True, True, True]])
   = Inr [[[2, 2, 2], [2, 2, 2], [2, 2, 2], [2, 2, 2]]]"
    by simp
  with h1 h2 show ?thesis by (intro conjI)
qed

text \<open>The claim as stated fails: a 1-channel image goes through with the inpainting
  routine's result, and no error is raised by \<^verbatim>\<open>apply\<close>.\<close>

theorem C5_one_channel_inpaint_counterexample:
  "MaskDropout_apply tape_libs inpaint_all
     [[[10], [20], [30], [40], [50]]] (Some [[False, True, True, True, True]])
   = Inr [[[10], [2], [2], [2], [2]]] \<and>
   \<not> isl (MaskDropout_apply tape_libs inpaint_all
     [[[10], [20], [30], [40], [50]]] (Some [[False, True, True, True, True]]))"
  by (simp add: MaskDropout_apply_def inpaint_all_def tape_libs_def probe_inpaint_def
      astype_uint8_def boundingRect_def nonzero_cols_def nonzero_rows_def)

section \<open>C6: the selected ids\<close>

text \<open>
  Claim C6. On a mask with \<open>N \<ge> 1\<close> components, whenever
  \<^verbatim>\<open>get_params_dependent_on_targets\<close> returns, the count \<^verbatim>\<open>objects_to_drop\<close> is the value
  \<open>k\<close> that \<^verbatim>\<open>randint\<close> drew (for \<^verbatim>\<open>MaskDropout\<close> clipped, \<open>min N k\<close>; for
  \<^verbatim>\<open>MaskDropoutV2\<close> \<open>k\<close> itself, drawn between \<open>int(N * fmin)\<close> and \<open>int(N * fmax)\<close>), the
  selected ids are what \<^verbatim>\<open>sample\<close> returned for that count from \<open>1..N\<close> (all of
  \<open>1..N\<close>, unsampled, when the fixed-count policy takes its shortcut), they are without
  repetition, all within \<open>1..N\<close>, exactly as many as the count, and the dropout mask is
  true exactly where the label image carries one of them. The call does return for
  bounds \<open>0 \<le> min \<le> max\<close> of the fixed-count policy and for fractions
  \<open>0 \<le> fmin \<le> fmax \<le> 1\<close> of the fraction policy.
\<close>

theorem C6_selected_ids:
  assumes "random_ok L" and "label_ok L msk" and "mask_ok msk"
    and "label L msk = (label_image, N)" and "1 \<le> N"
  shows "(\<forall>r. MaskDropout_get_params_dependent_on_targets L self g msk = Inr r \<longrightarrow>
            (\<exists>k g1 ids.
               random_randint L g (fst (self_max_objects self)) (snd (self_max_objects self)) =
                 Inr (k, g1) \<and>
               local_objects_to_drop r = Some (min N k) \<and> int (length ids) = min N k \<and>
               distinct ids \<and> set ids \<subseteq> {1..N} \<and>
               params_dropout_mask r = Some (build_dropout_mask msk label_image ids) \<and>
               (if min N k = N
                then ids = [1..N] \<and> local_labels_index r = None \<and> random_state r = g1
                else random_sample L g1 [1..N] (min N k) = Inr (ids, random_state r) \<and>
                     local_labels_index r = Some ids))) \<and>
         (\<forall>r. MaskDropoutV2_get_params_dependent_on_targets L self2 g msk = Inr r \<longrightarrow>
            (\<exists>k g1 ids.
               random_randint L g (py_int (of_int N * fst (self_max_objects self2)))
                 (py_int (of_int N * snd (self_max_objects self2))) = Inr (k, g1) \<and>
               random_sample L g1 [1..N] k = Inr (ids, random_state r) \<and>
               local_objects_to_drop r = Some k \<and> local_labels_index r = Some ids \<and>
               int (length ids) = k \<and> distinct ids \<and> set ids \<subseteq> {1..N} \<and>
               params_dropout_mask r = Some (build_dropout_mask msk label_image ids))) \<and>
         (0 \<le> fst (self_max_objects self) \<and>
          fst (self_max_objects self) \<le> snd (self_max_objects self) \<longrightarrow>
            (\<exists>r. MaskDropout_get_params_dependent_on_targets L self g msk = Inr r)) \<and>
         (0 \<le> fst (self_max_objects self2) \<and>
          fst (self_max_objects self2) \<le> snd (self_max_objects self2) \<and>
          snd (self_max_objects self2) \<le> 1 \<longrightarrow>
            (\<exists>r. MaskDropoutV2_get_params_dependent_on_targets L self2 g msk = Inr r))"
proof (intro conjI allI impI)
  fix r assume "MaskDropout_get_params_dependent_on_targets L self g msk = Inr r"
  with assms show "\<exists>k g1 ids.
               random_randint L g (fst (self_max_objects self)) (snd (self_max_objects self)) =
                 Inr (k, g1) \<and>
               local_objects_to_drop r = Some (min N k) \<and> int (length ids) = min N k \<and>
               distinct ids \<and> set ids \<subseteq> {1..N} \<and>
               params_dropout_mask r = Some (build_dropout_mask msk label_image ids) \<and>
               (if min N k = N
                then ids = [1..N] \<and> local_labels_index r = None \<and> random_state r = g1
                else random_sample L g1 [1..N] (min N k) = Inr (ids, random_state r) \<and>
                     local_labels_index r = Some ids)"
    by (rule MaskDropout_selection_drawn)
next
  fix r assume "MaskDropoutV2_get_params_dependent_on_targets L self2 g msk = Inr r"
  with assms(1,4,5) show "\<exists>k g1 ids.
               random_randint L g (py_int (of_int N * fst (self_max_objects self2)))
                 (py_int (of_int N * snd (self_max_objects self2))) = Inr (k, g1) \<and>
               random_sample L g1 [1..N] k = Inr (ids, random_state r) \<and>
               local_objects_to_drop r = Some k \<and> local_labels_index r = Some ids \<and>
               int (length ids) = k \<and> distinct ids \<and> set ids \<subseteq> {1..N} \<and>
               params_dropout_mask r = Some (build_dropout_mask msk label_image ids)"
    by (rule MaskDropoutV2_selection_drawn)
next
  assume "0 \<le> fst (self_max_objects self) \<and>
          fst (self_max_objects self) \<le> snd (self_max_objects self)"
  then show "\<exists>r. MaskDropout_get_params_dependent_on_targets L self g msk = Inr r"
    using MaskDropout_returns[OF assms(1,4,5)] by blast
next
  assume "0 \<le> fst (self_max_objects self2) \<and>
          fst (self_max_objects self2) \<le> snd (self_max_objects self2) \<and>
          snd (self_max_objects self2) \<le> 1"
  then show "\<exists>r. MaskDropoutV2_get_params_dependent_on_targets L self2 g msk = Inr r"
    using MaskDropoutV2_returns[OF assms(1,4,5)] by blast
qed

theorem C6_selected_ids_witness:
  "random_ok tape_libs \<and> label_ok tape_libs two_objects_mask \<and> mask_ok two_objects_mask \<and>
   label tape_libs two_objects_mask = (two_objects_mask, 2) \<and>
   MaskDropoutV2_get_params_dependent_on_targets tape_libs drop_up_to_half [1, 1] two_objects_mask =
     Inr \<lparr>params_dropout_mask = Some [[False, False], [False, True]],
          local_objects_to_drop = Some 1, local_labels_index = Some [2], random_state = []\<rparr> \<and>
   random_randint tape_libs [1, 1]
     (py_int (of_int 2 * fst (self_max_objects drop_up_to_half)))
     (py_int (of_int 2 * snd (self_max_objects drop_up_to_half))) = Inr (1, [1]) \<and>
   (\<exists>k g1 ids.
      random_randint tape_libs [1, 1]
        (py_int (of_int 2 * fst (self_max_objects drop_up_to_half)))
        (py_int (of_int 2 * snd (self_max_objects drop_up_to_half))) = Inr (k, g1) \<and>
      random_sample tape_libs g1 [1..2] k =
        Inr (ids, random_state \<lparr>params_dropout_mask = Some [[False, False], [False, True]],
          local_objects_to_drop = Some 1, local_labels_index = Some [2],
          random_state = ([]::nat list)\<rparr>) \<and>
      local_objects_to_drop \<lparr>params_dropout_mask = Some [[False, False], [False, True]],
          local_objects_to_drop = Some 1, local_labels_index = Some [2],
          random_state = ([]::nat list)\<rparr> = Some k \<and>
      local_labels_index \<lparr>params_dropout_mask = Some [[False, False], [False, True]],
          local_objects_to_drop = Some 1, local_labels_index = Some [2],
          random_state = ([]::nat list)\<rparr> = Some ids \<and>
      int (length ids) = k \<and> distinct ids \<and> set ids \<subseteq> {1..2} \<and>
      params_dropout_mask \<lparr>params_dropout_mask = Some [[False, False], [False, True]],
          local_objects_to_drop = Some 1, local_labels_index = Some [2],
          random_state = ([]::nat list)\<rparr> =
        Some (build_dropout_mask two_objects_mask two_objects_mask ids)) \<and>
   MaskDropout_get_params_dependent_on_targets tape_libs drop_one [1, 1] two_objects_mask =
     Inr \<lparr>params_dropout_mask = Some [[False, False], [False, True]],
          local_objects_to_drop = Some 1, local_labels_index = Some [2], random_state = []\<rparr> \<and>
   (\<exists>k g1 ids.
      random_randint tape_libs [1, 1] (fst (self_max_objects drop_one))
        (snd (self_max_objects drop_one)) = Inr (k, g1) \<and>
      local_objects_to_drop \<lparr>params_dropout_mask = Some [[False, False], [False, True]],
          local_objects_to_drop = Some 1, local_labels_index = Some [2],
          random_state = ([]::nat list)\<rparr> = Some (min 2 k) \<and>
      int (length ids) = min 2 k \<and> distinct ids \<and> set ids \<subseteq> {1..2} \<and>
      params_dropout_mask \<lparr>params_dropout_mask = Some [[False, False], [False, True]],
          local_objects_to_drop = Some 1, local_labels_index = Some [2],
          random_state = ([]::nat list)\<rparr> =
        Some (build_dropout_mask two_objects_mask two_objects_mask ids) \<and>
      (if min 2 k = 2
       then ids = [1..2] \<and>
            local_labels_index \<lparr>params_dropout_mask = Some [[False, False], [False, True]],
              local_objects_to_drop = Some 1, local_labels_index = Some [2],
              random_state = ([]::nat list)\<rparr> = None \<and>
            random_state \<lparr>params_dropout_mask = Some [[False, False], [False, True]],
              local_objects_to_drop = Some 1, local_labels_index = Some [2],
              random_state = ([]::nat list)\<rparr> = g1
       else random_sample tape_libs g1 [1..2] (min 2 k) =
              Inr (ids, random_state \<lparr>params_dropout_mask = Some [[False, False], [False, True]],
                local_objects_to_drop = Some 1, local_labels_index = Some [2],
                random_state = ([]::nat list)\<rparr>) \<and>
            local_labels_index \<lparr>params_dropout_mask = Some [[False, False], [False, True]],
              local_objects_to_drop = Some 1, local_labels_index = Some [2],
              random_state = ([]::nat list)\<rparr> = Some ids)) \<and>
   (\<exists>r. MaskDropout_get_params_dependent_on_targets tape_libs drop_one [1, 1] two_objects_mask = Inr r) \<and>
   (\<exists>r. MaskDropoutV2_get_params_dependent_on_targets tape_libs drop_up_to_half [1, 1] two_objects_mask = Inr r)"
proof -
  have h5: "(1::int) \<le> 2" by simp
  note c = C6_selected_ids [OF tape_libs_random_ok two_objects_label_ok two_objects_mask_ok
      two_objects_label h5, of drop_one "[1, 1]" drop_up_to_half]
  have v1: "0 \<le> fst (self_max_objects drop_one) \<and>
            fst (self_max_objects drop_one) \<le> snd (self_max_objects drop_one)"
    by (simp add: drop_one_def)
  have v2: "0 \<le> fst (self_max_objects drop_up_to_half) \<and>
            fst (self_max_objects drop_up_to_half) \<le> snd (self_max_objects drop_up_to_half) \<and>
            snd (self_max_objects drop_up_to_half) \<le> 1"
    by (simp add: drop_up_to_half_def)
  note a1 = c [THEN conjunct1, THEN spec, THEN mp, OF drop_one_run_11]
  note a2 = c [THEN conjunct2, THEN conjunct1, THEN spec, THEN mp, OF drop_up_to_half_run_11]
  note b = c [THEN conjunct2, THEN conjunct2, THEN conjunct1, THEN mp, OF v1]
  note d = c [THEN conjunct2, THEN conjunct2, THEN conjunct2, THEN mp, OF v2]
  from tape_libs_random_ok two_objects_label_ok two_objects_mask_ok two_objects_label
    drop_up_to_half_run_11 drop_up_to_half_draw_11 a2 drop_one_run_11 a1 b d
  show ?thesis by (intro conjI) assumption+
qed

section \<open>C7: image and mask are filled on the same footprint\<close>



section \<open>C8: the inpainting radius\<close>

text \<open>
  Claim C8. With the fill \<^verbatim>\<open>"inpaint"\<close>, \<^verbatim>\<open>apply\<close> calls the inpainting routine with the
  radius \<open>min 3 (max w h div 2)\<close>, where \<open>(x, y, w, h)\<close> is the bounding rectangle of the
  dropout mask: a rectangle of 10 by 2 gives the radius 3. The rectangle encloses
  every true pixel and is tight: its first and last columns and rows each hold a true
  pixel.
\<close>

theorem C8_inpaint_radius:
  assumes "self_image_fill_value self = Inpaint"
    and "boundingRect (astype_uint8 dm) = (x, y, w, h)"
  shows "MaskDropout_apply L self img (Some dm) =
           inpaint L img (astype_uint8 dm) (min 3 (max w h div 2)) \<and>
         (w = 10 \<and> h = 2 \<longrightarrow>
            MaskDropout_apply L self img (Some dm) = inpaint L img (astype_uint8 dm) 3) \<and>
         (\<forall>i<length dm. \<forall>j<length (dm ! i). dm ! i ! j \<longrightarrow>
            x \<le> int j \<and> int j < x + w \<and> y \<le> int i \<and> int i < y + h \<and>
            (\<exists>i'<length dm. nat x < length (dm ! i') \<and> dm ! i' ! nat x) \<and>
            (\<exists>i'<length dm. nat (x + w - 1) < length (dm ! i') \<and> dm ! i' ! nat (x + w - 1)) \<and>
            (\<exists>j'<length (dm ! nat y). dm ! nat y ! j') \<and>
            (\<exists>j'<length (dm ! nat (y + h - 1)). dm ! nat (y + h - 1) ! j'))"
proof -
  have tight: "(\<exists>i'<length dm. nat x < length (dm ! i') \<and> dm ! i' ! nat x) \<and>
            (\<exists>i'<length dm. nat (x + w - 1) < length (dm ! i') \<and> dm ! i' ! nat (x + w - 1)) \<and>
            (\<exists>j'<length (dm ! nat y). dm ! nat y ! j') \<and>
            (\<exists>j'<length (dm ! nat (y + h - 1)). dm ! nat (y + h - 1) ! j')"
    if "i < length dm" "j < length (dm ! i)" "dm ! i ! j" for i j
  proof -
    from boundingRect_tight[OF assms(2) that] obtain c c' r r' where
      e: "x = int c" "w = int (c' - c + 1)" "c \<le> c'" "y = int r" "h = int (r' - r + 1)" "r \<le> r'"
      and hits: "\<exists>i<length dm. c < length (dm ! i) \<and> dm ! i ! c"
        "\<exists>i<length dm. c' < length (dm ! i) \<and> dm ! i ! c'"
        "\<exists>j<length (dm ! r). dm ! r ! j" "\<exists>j<length (dm ! r'). dm ! r' ! j"
      by blast
    have "nat x = c" "nat (x + w - 1) = c'" "nat y = r" "nat (y + h - 1) = r'"
      using e by simp_all
    with hits show ?thesis by simp
  qed
  show ?thesis
    using assms boundingRect_encloses[OF assms(2)] tight
    by (simp add: MaskDropout_apply_def)
qed

theorem C8_inpaint_radius_witness:
  "self_image_fill_value inpaint_all = Inpaint \<and>
   boundingRect (astype_uint8 scenario_B_dropout_mask) = (1, 1, 10, 2) \<and>
   MaskDropout_apply tape_libs inpaint_all scenario_B_image (Some scenario_B_dropout_mask) =
     inpaint tape_libs scenario_B_image (astype_uint8 scenario_B_dropout_mask) 3"
proof -
  have h1: "self_image_fill_value inpaint_all = Inpaint" by (simp add: inpaint_all_def)
  have h2: "boundingRect (astype_uint8 scenario_B_dropout_mask) = (1, 1, 10, 2)"
    by code_simp
  have wh: "(10::int) = 10 \<and> (2::int) = 2" by simp
  from C8_inpaint_radius [OF h1 h2, of tape_libs scenario_B_image]
  have "(10::int) = 10 \<and> (2::int) = 2 \<longrightarrow>
     MaskDropout_apply tape_libs inpaint_all scenario_B_image (Some scenario_B_dropout_mask) =
     inpaint tape_libs scenario_B_image (astype_uint8 scenario_B_dropout_mask) 3"
    by (elim conjE)
  with wh have "MaskDropout_apply tape_libs inpaint_all scenario_B_image (Some scenario_B_dropout_mask) =
     inpaint tape_libs scenario_B_image (astype_uint8 scenario_B_dropout_mask) 3"
    by (rule rev_mp)
  with h1 h2 show ?thesis by (intro conjI) assumption+
qed

section \<open>C9: the selection depends on the generator through its draws only\<close>

text \<open>
  Claim C9. Two runs of \<^verbatim>\<open>get_params_dependent_on_targets\<close> on one mask whose generators
  answer alike (as they do after identical seeding, \<open>same_draws_refl\<close>; the states and
  even the generators may differ otherwise) end alike, for both classes: with the same
  error, or with the same dropout mask, the same count and the same selected ids. The
  code consults the generator twice, by \<^verbatim>\<open>randint\<close> on the configured bounds and by
  \<^verbatim>\<open>sample\<close> on the labels \<open>1..N\<close>, and through nothing else.
\<close>

theorem C9_same_draws_same_selection:
  assumes "label L1 msk = label L2 msk"
    and "same_draws L1 g1 L2 g2 [1..snd (label L1 msk)]"
  shows "selected (MaskDropout_get_params_dependent_on_targets L1 self g1 msk) =
           selected (MaskDropout_get_params_dependent_on_targets L2 self g2 msk) \<and>
         selected (MaskDropoutV2_get_params_dependent_on_targets L1 self2 g1 msk) =
           selected (MaskDropoutV2_get_params_dependent_on_targets L2 self2 g2 msk)"
  using assms by (simp add: MaskDropout_selected_eq MaskDropoutV2_selected_eq)

theorem C9_same_draws_same_selection_witness:
  "label tape_libs two_objects_mask = label tape_libs two_objects_mask \<and>
   same_draws tape_libs [1, 1] tape_libs [1, 1, 7] [1..snd (label tape_libs two_objects_mask)] \<and>
   selected (MaskDropout_get_params_dependent_on_targets tape_libs drop_one [1, 1] two_objects_mask) =
     selected (MaskDropout_get_params_dependent_on_targets tape_libs drop_one [1, 1, 7] two_objects_mask) \<and>
   selected (MaskDropoutV2_get_params_dependent_on_targets tape_libs drop_up_to_half [1, 1] two_objects_mask) =
     selected (MaskDropoutV2_get_params_dependent_on_targets tape_libs drop_up_to_half [1, 1, 7] two_objects_mask) \<and>
   selected (MaskDropout_get_params_dependent_on_targets tape_libs drop_one [1, 1] two_objects_mask) =
     Inr (Some [[False, False], [False, True]], Some 1, Some [2]) \<and>
   selected (MaskDropoutV2_get_params_dependent_on_targets tape_libs drop_up_to_half [1, 1] two_objects_mask) =
     Inr (Some [[False, False], [False, True]], Some 1, Some [2]) \<and>
   selected (MaskDropout_get_params_dependent_on_targets tape_libs drop_one [1, 0] two_objects_mask) =
     Inr (Some [[True, False], [False, False]], Some 1, Some [1])"
proof -
  have h1: "label tape_libs two_objects_mask = label tape_libs two_objects_mask" by (rule refl)
  note c = C9_same_draws_same_selection [OF h1 tapes_same_draws, of drop_one drop_up_to_half]
  have v1: "selected (MaskDropout_get_params_dependent_on_targets tape_libs drop_one [1, 1] two_objects_mask) =
     Inr (Some [[False, False], [False, True]], Some 1, Some [2])"
    by (subst drop_one_run_11) (simp add: selected_def)
  have v2: "selected (MaskDropoutV2_get_params_dependent_on_targets tape_libs drop_up_to_half [1, 1] two_objects_mask) =
     Inr (Some [[False, False], [False, True]], Some 1, Some [2])"
    by (subst drop_up_to_half_run_11) (simp add: selected_def)
  have other: "selected (MaskDropout_get_params_dependent_on_targets tape_libs drop_one [1, 0] two_objects_mask) =
     Inr (Some [[True, False], [False, False]], Some 1, Some [1])"
    by (simp add: MaskDropout_get_params_dependent_on_targets_def two_objects_label drop_one_def
          selected_def)
       (simp add: tape_libs_def two_objects_mask_def random_randint_def random_sample_def
          tape_randint_def build_dropout_mask_def raster_or_def raster_eq_def np_zeros_bool_def)
  from h1 tapes_same_draws c [THEN conjunct1] c [THEN conjunct2] v1 v2 other
  show ?thesis by (intro conjI) assumption+
qed

section \<open>C10: MaskDropoutV2 drops the caller's always_apply and p\<close>

text \<open>
  Claim C10. \<^verbatim>\<open>MaskDropoutV2.__init__\<close> passes \<^verbatim>\<open>always_apply\<close> and \<^verbatim>\<open>p\<close> by position
  into the parent's \<^verbatim>\<open>max_objects\<close> and \<^verbatim>\<open>image_fill_value\<close>, which it then overwrites: the
  transform it builds always has \<^verbatim>\<open>always_apply = False\<close> and \<^verbatim>\<open>p = 0.5\<close>, and two calls
  that differ only in \<^verbatim>\<open>always_apply\<close> and \<^verbatim>\<open>p\<close> build the same transform.
\<close>

theorem C10_v2_init_ignores_always_apply_and_p:
  "MaskDropoutV2_init max_objects image_fill_value mask_fill_value always_apply p =
     Inr \<lparr>self_always_apply = False, self_p = 0.5, self_max_objects = max_objects,
          self_image_fill_value = image_fill_value, self_mask_fill_value = mask_fill_value\<rparr> \<and>
   MaskDropoutV2_init max_objects image_fill_value mask_fill_value always_apply p =
     MaskDropoutV2_init max_objects image_fill_value mask_fill_value always_apply' p'"
  by (simp add: MaskDropoutV2_init_def MaskDropout_init_def DualTransform_init_def)

end
